theory Spec2Isabelle
  imports Complex_Main "HOL-Library.Multiset"
begin

section \<open>Conformal calibration core of \<^verbatim>\<open>CPdM_pipeline.py\<close>\<close>

text \<open>
  The development embeds the conformal part of \<^verbatim>\<open>ExperimentPipeline\<close>: the prediction
  post-processing loops, the interval construction, the margin estimators and the
  methods that drive them. Float arrays are lists of reals; the float values that are
  not real numbers (\<^verbatim>\<open>nan\<close>, \<^verbatim>\<open>inf\<close>) appear only where the source can produce them and
  are then constructors of the types \<open>fl\<close> (computed margins and metrics) and \<open>score\<close>
  (S-scores).
\<close>

subsection \<open>Prediction post-processing\<close>

text \<open>
  \<^verbatim>\<open>np.clip(a, 0, None)\<close>: the element-wise maximum with 0.
\<close>

definition clip0 :: "real list \<Rightarrow> real list" where
  "clip0 a = map (\<lambda>v. max v 0) a"

text \<open>
  The in-place loop of lines 534-536, 911-913, 987-989 and 1096-1098:
  \<^verbatim>\<open>
  for i in range(1, len(preds)):
      if preds[i] > preds[i-1]:
          preds[i] = preds[i-1]
  \<close>
  \<open>monotonic_loop i preds\<close> is the array after the iterations \<open>i, i+1, ...\<close>; the
  loop index never leaves the array, so every read and write is in range.
\<close>

function monotonic_loop :: "nat \<Rightarrow> real list \<Rightarrow> real list" where
  "monotonic_loop i preds =
     (if i < length preds
      then monotonic_loop (i + 1)
             (if preds ! i > preds ! (i - 1) then preds[i := preds ! (i - 1)] else preds)
      else preds)"
  by pat_completeness auto
termination
  by (relation "measure (\<lambda>(i, preds). length preds - i)") auto

declare monotonic_loop.simps [simp del]

definition monotonic_pass :: "real list \<Rightarrow> real list" where
  "monotonic_pass preds = monotonic_loop 1 preds"

text \<open>
  The two orders in which the source combines the steps. Lines 910-914 (per-unit
  evaluation), 985-990 and 1092-1099 (multi-unit plot) run the loop on the raw
  predictions and clip afterwards; lines 533-536 (global interval) clip the predictions
  on receipt and run the loop on the clipped array.
\<close>

definition postprocess_unit :: "real list \<Rightarrow> real list" where
  "postprocess_unit preds = clip0 (monotonic_pass preds)"

definition postprocess_global :: "real list \<Rightarrow> real list" where
  "postprocess_global preds = monotonic_pass (clip0 preds)"

text \<open>
  The same sites as the sequences of array operations the source performs, in program
  order, with the array threaded through them.
\<close>

datatype array_op = ClipZero | MonotonicLoop

fun apply_array_op :: "array_op \<Rightarrow> real list \<Rightarrow> real list" where
  "apply_array_op ClipZero a = clip0 a"
| "apply_array_op MonotonicLoop a = monotonic_pass a"

definition run_ops :: "array_op list \<Rightarrow> real list \<Rightarrow> real list" where
  "run_ops ops a = fold apply_array_op ops a"

datatype site = GlobalInterval | PerUnitMetrics | MultipleUnits

fun site_ops :: "site \<Rightarrow> array_op list" where
  "site_ops GlobalInterval = [ClipZero, MonotonicLoop]"
| "site_ops PerUnitMetrics = [MonotonicLoop, ClipZero]"
| "site_ops MultipleUnits = [MonotonicLoop, ClipZero]"

text \<open>
  The array on which a sequence of operations runs the loop: the array as it is when the
  first \<open>MonotonicLoop\<close> is reached.
\<close>

fun loop_input :: "array_op list \<Rightarrow> real list \<Rightarrow> real list option" where
  "loop_input [] a = None"
| "loop_input (MonotonicLoop # ops) a = Some a"
| "loop_input (ClipZero # ops) a = loop_input ops (clip0 a)"

subsection \<open>Interval construction\<close>

text \<open>
  Lines 545-546 and 917: \<^verbatim>\<open>lower = np.clip(preds - margin, 0, None)\<close>, \<^verbatim>\<open>upper = preds\<close>.
\<close>

definition lower_bound :: "real list \<Rightarrow> real \<Rightarrow> real list" where
  "lower_bound preds margin = clip0 (map (\<lambda>p. p - margin) preds)"

definition upper_bound :: "real list \<Rightarrow> real list" where
  "upper_bound preds = preds"

subsection \<open>Float results and early exits\<close>

text \<open>
  A computed float that is either a number or \<^verbatim>\<open>nan\<close>: numpy's mean of an empty array and
  its standard deviation with \<^verbatim>\<open>ddof=1\<close> on fewer than two values are \<^verbatim>\<open>nan\<close> (with a
  warning, no exception). Infinite values do not arise from the finite inputs of this
  part of the pipeline.
\<close>

datatype fl = Fin real | NaN

text \<open>
  The ways a method stops early. The first seven are the source's
  \<^verbatim>\<open>print(...); return\<close> (or \<^verbatim>\<open>continue\<close>) exits, named after their messages;
  \<open>Raised\<close> is a Python exception that propagates.
\<close>

datatype pyexc = ValueError | IndexError | KeyError | UnboundLocalError | AttributeError

datatype stop =
    NoResultsMetrics
  | NoValidBestModel
  | NotEnoughUnits
  | NoData
  | UnitTooShort
  | UnitNoWindows
  | InvalidMarginMethod
  | Raised pyexc

definition bind_stop :: "stop + 'a \<Rightarrow> ('a \<Rightarrow> stop + 'b) \<Rightarrow> stop + 'b" where
  "bind_stop r f = (case r of Inl e \<Rightarrow> Inl e | Inr v \<Rightarrow> f v)"

fun fl_le :: "fl \<Rightarrow> fl \<Rightarrow> bool" where
  "fl_le (Fin a) (Fin b) = (a \<le> b)"
| "fl_le _ _ = False"

fun fl_less :: "fl \<Rightarrow> fl \<Rightarrow> bool" where
  "fl_less (Fin a) (Fin b) = (a < b)"
| "fl_less _ _ = False"

fun fl_sub :: "fl \<Rightarrow> fl \<Rightarrow> fl" where
  "fl_sub (Fin a) (Fin b) = Fin (a - b)"
| "fl_sub _ _ = NaN"

fun fl_mult :: "real \<Rightarrow> fl \<Rightarrow> fl" where
  "fl_mult z (Fin a) = Fin (z * a)"
| "fl_mult z NaN = NaN"

fun is_fin :: "fl \<Rightarrow> bool" where
  "is_fin (Fin v) = True"
| "is_fin NaN = False"

fun finite_nonneg :: "fl \<Rightarrow> bool" where
  "finite_nonneg (Fin v) = (0 \<le> v)"
| "finite_nonneg NaN = False"

fun fin_values :: "fl list \<Rightarrow> real list option" where
  "fin_values [] = Some []"
| "fin_values (Fin v # a) = map_option (\<lambda>vs. v # vs) (fin_values a)"
| "fin_values (NaN # a) = None"

subsection \<open>The numpy functions the estimators call\<close>

definition np_mean :: "real list \<Rightarrow> fl" where
  "np_mean a = (if a = [] then NaN else Fin (sum_list a / real (length a)))"

definition np_mean_fl :: "fl list \<Rightarrow> fl" where
  "np_mean_fl a = (case fin_values a of None \<Rightarrow> NaN | Some vs \<Rightarrow> np_mean vs)"

text \<open>
  \<^verbatim>\<open>np.median\<close>: the middle value of the sorted array, the mean of the two middle values
  when the length is even, \<^verbatim>\<open>nan\<close> on an empty array or when an entry is \<^verbatim>\<open>nan\<close>.
\<close>

definition np_median :: "real list \<Rightarrow> fl" where
  "np_median a =
     (let s = sort a; n = length a
      in if n = 0 then NaN
         else if odd n then Fin (s ! (n div 2))
         else Fin ((s ! (n div 2 - 1) + s ! (n div 2)) / 2))"

definition np_median_fl :: "fl list \<Rightarrow> fl" where
  "np_median_fl a = (case fin_values a of None \<Rightarrow> NaN | Some vs \<Rightarrow> np_median vs)"

text \<open>
  \<^verbatim>\<open>np.std(res, ddof=1)\<close>: the square root of the sum of squared deviations from the
  mean, divided by \<open>n - 1\<close>; for \<open>n \<le> 1\<close> the divisor is \<open>0\<close> and the result \<^verbatim>\<open>nan\<close>.
\<close>

definition np_std_ddof1 :: "real list \<Rightarrow> fl" where
  "np_std_ddof1 a =
     (let n = length a
      in if n \<le> 1 then NaN
         else Fin (sqrt (sum_list (map (\<lambda>x. (x - sum_list a / real n)\<^sup>2) a) / real (n - 1))))"

text \<open>
  \<^verbatim>\<open>np.quantile(a, q)\<close> with the default linear interpolation: on the sorted array the
  virtual index is \<open>q * (n - 1)\<close>, and the result interpolates between the entries at
  its floor and at the next index (clipped to the last). numpy refuses \<open>q\<close> outside
  \<open>[0, 1]\<close> and, since 1.22, an empty array.
\<close>

definition quantile_linear :: "real list \<Rightarrow> real \<Rightarrow> real" where
  "quantile_linear a q =
     (let s = sort a; n = length a;
          virtual_index = q * real (n - 1);
          previous_index = nat \<lfloor>virtual_index\<rfloor>;
          next_index = min (previous_index + 1) (n - 1);
          gamma = virtual_index - real previous_index
      in s ! previous_index + gamma * (s ! next_index - s ! previous_index))"

definition np_quantile :: "real list \<Rightarrow> real \<Rightarrow> stop + real" where
  "np_quantile a q =
     (if q < 0 \<or> 1 < q then Inl (Raised ValueError)
      else if a = [] then Inl (Raised IndexError)
      else Inr (quantile_linear a q))"

text \<open>
  \<^verbatim>\<open>np.argsort\<close>: the original positions in ascending order of their values (equal values
  keep their order here; on distinct values the result is the only one possible).
  \<^verbatim>\<open>np.cumsum\<close>: the running sums. \<^verbatim>\<open>np.searchsorted(cdf, v)\<close> on an ascending array: the
  number of entries below \<open>v\<close>, which is the first index whose entry reaches \<open>v\<close>.
\<close>

definition argsort :: "real list \<Rightarrow> nat list" where
  "argsort a = sort_key (\<lambda>i. a ! i) [0..<length a]"

fun cumsum_from :: "real \<Rightarrow> real list \<Rightarrow> real list" where
  "cumsum_from acc [] = []"
| "cumsum_from acc (w # ws) = (acc + w) # cumsum_from (acc + w) ws"

definition cumsum :: "real list \<Rightarrow> real list" where
  "cumsum ws = cumsum_from 0 ws"

definition searchsorted :: "real list \<Rightarrow> real \<Rightarrow> nat" where
  "searchsorted cdf v = length (takeWhile (\<lambda>c. c < v) cdf)"

subsection \<open>Margin estimators\<close>

text \<open>
  Lines 489-491: the calibration residuals are taken against the clipped predictions.
  \<open>p_cal\<close> is what \<^verbatim>\<open>model_predict_fn(X_cal)\<close> returns.
\<close>

definition residuals :: "real list \<Rightarrow> real list \<Rightarrow> real list" where
  "residuals y_cal p_cal = map2 (\<lambda>y p. y - p) y_cal (clip0 p_cal)"

definition abs_residuals :: "real list \<Rightarrow> real list \<Rightarrow> real list" where
  "abs_residuals y_cal p_cal = map abs (residuals y_cal p_cal)"

text \<open>Lines 492-493.\<close>

definition naive_quantile_margin :: "real list \<Rightarrow> real \<Rightarrow> stop + real" where
  "naive_quantile_margin absolute_residuals alpha_val =
     np_quantile absolute_residuals (1 - alpha_val)"

text \<open>
  Lines 494-505, and with the same body lines 666-681 and 824-837
  (\<^verbatim>\<open>weighted_margin\<close>):
  \<^verbatim>\<open>
  n = len(absolute_residuals)
  sorted_res = np.sort(absolute_residuals)
  weights = np.exp(np.arange(n) / (n/5.0))
  w_sorted_idx = np.argsort(absolute_residuals)
  w_sorted = weights[w_sorted_idx]
  cdf = np.cumsum(w_sorted)
  total_w = cdf[-1]
  cutoff = (1 - alpha_val) * total_w
  idx = np.searchsorted(cdf, cutoff)
  idx = min(idx, n-1)
  return sorted_res[idx]
  \<close>
  On an empty array \<^verbatim>\<open>cdf[-1]\<close> raises. \<open>position_weight n i\<close> is the entry \<^verbatim>\<open>weights[i]\<close>.
\<close>

definition position_weight :: "nat \<Rightarrow> nat \<Rightarrow> real" where
  "position_weight n i = exp (real i / (real n / 5))"

definition weighted_exponential_margin :: "real list \<Rightarrow> real \<Rightarrow> stop + real" where
  "weighted_exponential_margin absolute_residuals alpha_val =
     (let n = length absolute_residuals;
          sorted_res = sort absolute_residuals;
          weights = map (position_weight n) [0..<n];
          w_sorted_idx = argsort absolute_residuals;
          w_sorted = map (\<lambda>i. weights ! i) w_sorted_idx;
          cdf = cumsum w_sorted
      in if cdf = [] then Inl (Raised IndexError)
         else (let total_w = last cdf;
                   cutoff = (1 - alpha_val) * total_w;
                   idx = min (searchsorted cdf cutoff) (n - 1)
               in Inr (sorted_res ! idx)))"

text \<open>
  The estimator as the specification words it: the weight of a residual is taken from
  its rank in the ascending order, so the \<open>k\<close>-th smallest residual weighs
  \<open>exp (k / (n / 5))\<close>.
\<close>

definition spec_rank_weighted_margin :: "real list \<Rightarrow> real \<Rightarrow> stop + real" where
  "spec_rank_weighted_margin absolute_residuals alpha_val =
     (let n = length absolute_residuals;
          sorted_res = sort absolute_residuals;
          rank_weights = map (position_weight n) [0..<n];
          cdf = cumsum rank_weights
      in if cdf = [] then Inl (Raised IndexError)
         else (let cutoff = (1 - alpha_val) * last cdf;
                   idx = min (searchsorted cdf cutoff) (n - 1)
               in Inr (sorted_res ! idx)))"

text \<open>
  The random generator is numpy's, not the repository's: \<open>default_rng G seed\<close> is the
  state of \<^verbatim>\<open>np.random.default_rng(seed)\<close>, and \<open>integers G rng n k\<close> draws \<open>k\<close> indices
  below \<open>n\<close> and returns them with the advanced state. \<^verbatim>\<open>rng.choice(a, size=n,
  replace=True)\<close> reads the array at \<open>n\<close> such indices.
\<close>

record 'g bitgen =
  default_rng :: "nat \<Rightarrow> 'g"
  integers :: "'g \<Rightarrow> nat \<Rightarrow> nat \<Rightarrow> nat list \<times> 'g"

text \<open>
  What the estimators rely on from the generator: asked for \<open>k\<close> indices below a positive
  \<open>n\<close>, it returns \<open>k\<close> indices, each below \<open>n\<close>.
\<close>

definition draws_in_range :: "'g bitgen \<Rightarrow> bool" where
  "draws_in_range G =
     (\<forall>rng n k. 0 < n \<longrightarrow>
        length (fst (integers G rng n k)) = k \<and> list_all (\<lambda>i. i < n) (fst (integers G rng n k)))"

text \<open>A small generator with that property, for concrete runs of the model.\<close>

fun toy_draws :: "nat \<Rightarrow> nat \<Rightarrow> nat \<Rightarrow> nat list \<times> nat" where
  "toy_draws s n 0 = ([], s)"
| "toy_draws s n (Suc k) =
     (case toy_draws (5 * s + 3) n k of (idx, s') \<Rightarrow> ((5 * s + 3) mod n # idx, s'))"

definition toy_rng :: "nat bitgen" where
  "toy_rng = \<lparr>default_rng = (\<lambda>seed. seed), integers = toy_draws\<rparr>"

definition rng_choice :: "'g bitgen \<Rightarrow> 'g \<Rightarrow> real list \<Rightarrow> real list \<times> 'g" where
  "rng_choice G rng a =
     (case integers G rng (length a) (length a) of (idx, rng') \<Rightarrow> (map (\<lambda>i. a ! i) idx, rng'))"

text \<open>
  Lines 510-513 (and 689-693, 845-848): the loop over \<^verbatim>\<open>range(B)\<close>, one resample and one
  quantile per iteration, each drawn from the state the previous one left.
\<close>

fun bootstrap_loop :: "'g bitgen \<Rightarrow> nat \<Rightarrow> 'g \<Rightarrow> real list \<Rightarrow> real \<Rightarrow> stop + real list" where
  "bootstrap_loop G 0 rng a q_level = Inr []"
| "bootstrap_loop G (Suc b) rng a q_level =
     (case rng_choice G rng a of
        (sample, rng') \<Rightarrow>
          bind_stop (np_quantile sample q_level) (\<lambda>v.
          bind_stop (bootstrap_loop G b rng' a q_level) (\<lambda>vs. Inr (v # vs))))"

text \<open>
  Lines 506-514: \<^verbatim>\<open>bootstrap_margin\<close> of the global interval, which returns the mean of
  the quantiles. The generator is created inside the call, from \<^verbatim>\<open>self.random_state\<close>.
\<close>

definition bootstrap_margin_mean :: "'g bitgen \<Rightarrow> nat \<Rightarrow> real list \<Rightarrow> real \<Rightarrow> nat \<Rightarrow> stop + fl" where
  "bootstrap_margin_mean G seed absolute_residuals alpha_val B =
     bind_stop (bootstrap_loop G B (default_rng G seed) absolute_residuals (1 - alpha_val))
       (\<lambda>samples. Inr (np_mean samples))"

text \<open>Lines 683-694 and 839-849: the same with the median of the quantiles.\<close>

definition bootstrap_margin_median :: "'g bitgen \<Rightarrow> nat \<Rightarrow> real list \<Rightarrow> real \<Rightarrow> nat \<Rightarrow> stop + fl" where
  "bootstrap_margin_median G seed abs_res alpha_val B =
     bind_stop (bootstrap_loop G B (default_rng G seed) abs_res (1 - alpha_val))
       (\<lambda>samples. Inr (np_median samples))"

text \<open>
  Lines 658-664 and 817-822. \<open>z_val\<close> is the value of \<^verbatim>\<open>norm.ppf(1.0 - alpha_val)\<close>, which
  scipy computes: a real number for every \<open>alpha_val\<close> strictly between 0 and 1.
\<close>

definition parametric_margin :: "real \<Rightarrow> real list \<Rightarrow> real list \<Rightarrow> fl" where
  "parametric_margin z_val y_cal p_cal =
     (let res = residuals y_cal p_cal;
          sigma = np_std_ddof1 res
      in fl_mult z_val sigma)"

text \<open>
  The placeholders: lines 515-518 return the naive quantile, lines 696-702 the
  parametric margin.
\<close>

definition jackknife_plus_margin_global :: "real list \<Rightarrow> real \<Rightarrow> stop + real" where
  "jackknife_plus_margin_global absolute_residuals alpha_val =
     naive_quantile_margin absolute_residuals alpha_val"

definition cv_plus_margin_global :: "real list \<Rightarrow> real \<Rightarrow> stop + real" where
  "cv_plus_margin_global absolute_residuals alpha_val =
     naive_quantile_margin absolute_residuals alpha_val"

definition jackknife_plus_margin :: "real \<Rightarrow> real list \<Rightarrow> real list \<Rightarrow> fl" where
  "jackknife_plus_margin z_val y_cal p_cal = parametric_margin z_val y_cal p_cal"

definition cv_plus_margin :: "real \<Rightarrow> real list \<Rightarrow> real list \<Rightarrow> fl" where
  "cv_plus_margin z_val y_cal p_cal = parametric_margin z_val y_cal p_cal"

text \<open>
  Lines 519-532: the candidate margins of the global interval, in the insertion order
  of \<^verbatim>\<open>margin_dict\<close>.
\<close>

definition margin_dict_global :: "'g bitgen \<Rightarrow> nat \<Rightarrow> real list \<Rightarrow> real \<Rightarrow> stop + (string \<times> fl) list" where
  "margin_dict_global G seed absolute_residuals alpha =
     bind_stop (naive_quantile_margin absolute_residuals alpha) (\<lambda>m_naive.
     bind_stop (weighted_exponential_margin absolute_residuals alpha) (\<lambda>m_weighted.
     bind_stop (bootstrap_margin_mean G seed absolute_residuals alpha 200) (\<lambda>m_bootstrap.
     bind_stop (jackknife_plus_margin_global absolute_residuals alpha) (\<lambda>m_jackknife.
     bind_stop (cv_plus_margin_global absolute_residuals alpha) (\<lambda>m_cv.
       Inr [(''Naive'', Fin m_naive),
            (''Weighted'', Fin m_weighted),
            (''Bootstrap'', m_bootstrap),
            (''Jackknife+'', Fin m_jackknife),
            (''CV+'', Fin m_cv),
            (''ComplexMethod'', np_median_fl [Fin m_naive, Fin m_weighted, m_bootstrap])])))))"

text \<open>
  Lines 704-719: the candidate margins of the single-unit method; lines 852-855 keep
  the first three of them.
\<close>

definition margin_dict_unit :: "'g bitgen \<Rightarrow> nat \<Rightarrow> real \<Rightarrow> real list \<Rightarrow> real list \<Rightarrow> real \<Rightarrow> stop + (string \<times> fl) list" where
  "margin_dict_unit G seed z_val y_cal p_cal alpha =
     (let m_param = parametric_margin z_val y_cal p_cal
      in bind_stop (weighted_exponential_margin (abs_residuals y_cal p_cal) alpha) (\<lambda>m_weighted.
         bind_stop (bootstrap_margin_median G seed (abs_residuals y_cal p_cal) alpha 200) (\<lambda>m_bootstrap.
           Inr [(''ParamNormal'', m_param),
                (''Weighted'', Fin m_weighted),
                (''Bootstrap'', m_bootstrap),
                (''Jackknife+'', jackknife_plus_margin z_val y_cal p_cal),
                (''CV+'', cv_plus_margin z_val y_cal p_cal),
                (''ComplexMethod'', np_median_fl [m_param, Fin m_weighted, m_bootstrap])])))"

definition margin_candidates :: "'g bitgen \<Rightarrow> nat \<Rightarrow> real \<Rightarrow> real list \<Rightarrow> real list \<Rightarrow> real \<Rightarrow> stop + (string \<times> fl) list" where
  "margin_candidates G seed z_val y_cal p_cal alpha =
     (let m_param = parametric_margin z_val y_cal p_cal
      in bind_stop (weighted_exponential_margin (abs_residuals y_cal p_cal) alpha) (\<lambda>m_weighted.
         bind_stop (bootstrap_margin_median G seed (abs_residuals y_cal p_cal) alpha 200) (\<lambda>m_bootstrap.
           Inr [(''ParamNormal'', m_param),
                (''Weighted'', Fin m_weighted),
                (''Bootstrap'', m_bootstrap)])))"

subsection \<open>Choice of the scoring model\<close>

text \<open>
  An S-score is a float that may be infinite or \<^verbatim>\<open>nan\<close>: \<^verbatim>\<open>run_model_fixed\<close> and
  \<^verbatim>\<open>run_xgboost_fixed\<close> store \<^verbatim>\<open>np.nan\<close> for a model they could not train (lines 222-224,
  232-234, 286-288, 297-299). \<open>score_less\<close> is the float comparison \<^verbatim>\<open><\<close>, false whenever
  an operand is \<^verbatim>\<open>nan\<close>.
\<close>

datatype score = Score real | ScoreInf | ScoreNegInf | ScoreNaN

fun score_less :: "score \<Rightarrow> score \<Rightarrow> bool" where
  "score_less (Score a) (Score b) = (a < b)"
| "score_less (Score a) ScoreInf = True"
| "score_less ScoreNegInf (Score b) = True"
| "score_less ScoreNegInf ScoreInf = True"
| "score_less _ _ = False"

fun np_isinf :: "score \<Rightarrow> bool" where
  "np_isinf ScoreInf = True"
| "np_isinf ScoreNegInf = True"
| "np_isinf _ = False"

text \<open>
  \<^verbatim>\<open>min(self.results_metrics, key=...)\<close>: Python keeps the first entry and replaces it
  only by a later one whose key is smaller. \<open>results_metrics\<close> lists the dictionary in
  insertion order, each model name with its \<^verbatim>\<open>"S-score"\<close> entry.
\<close>

fun py_min :: "string \<times> score \<Rightarrow> (string \<times> score) list \<Rightarrow> string \<times> score" where
  "py_min best [] = best"
| "py_min best (m # ms) = py_min (if score_less (snd m) (snd best) then m else best) ms"

text \<open>Lines 438-447, 597-608 and 1028-1038.\<close>

definition identify_best_model :: "(string \<times> score) list \<Rightarrow> stop + string" where
  "identify_best_model results_metrics_dict =
     (case results_metrics_dict of
        [] \<Rightarrow> Inl NoResultsMetrics
      | m # ms \<Rightarrow>
          (let best = py_min m ms
           in if np_isinf (snd best) then Inl NoValidBestModel else Inr (fst best)))"

text \<open>Lines 762-768, where the dictionary is not tested first and \<^verbatim>\<open>min\<close> raises on an empty one.\<close>

definition identify_best_model_per_unit :: "(string \<times> score) list \<Rightarrow> stop + string" where
  "identify_best_model_per_unit results_metrics_dict =
     (case results_metrics_dict of
        [] \<Rightarrow> Inl (Raised ValueError)
      | m # ms \<Rightarrow>
          (let best = py_min m ms
           in if np_isinf (snd best) then Inl NoValidBestModel else Inr (fst best)))"

text \<open>
  Lines 450-466 (and 614-630, 773-792): the saved model is rebuilt by name; the result is
  \<^verbatim>\<open>is_keras_model\<close>. A name outside the \<^verbatim>\<open>if\<close>/\<^verbatim>\<open>elif\<close> chain leaves \<^verbatim>\<open>best_model\<close>
  unbound at \<^verbatim>\<open>best_model.load_weights\<close>. The saved files are taken to exist.
\<close>

definition load_best_model :: "string \<Rightarrow> stop + bool" where
  "load_best_model best_model_name =
     (if best_model_name = ''XGBoost'' then Inr False
      else if best_model_name = ''LSTM'' \<or> best_model_name = ''BiLSTM''
              \<or> best_model_name = ''NBEATS'' \<or> best_model_name = ''CNNGRU'' then Inr True
      else Inl (Raised UnboundLocalError))"


subsection \<open>The pipeline object\<close>

text \<open>
  The fields of \<^verbatim>\<open>ExperimentPipeline\<close> the conformal methods read or write. A window is
  the list of the feature rows it covers (the tree model reads it flattened).
  \<open>df_unit st u\<close> stands for the rows of unit \<open>u\<close> in \<^verbatim>\<open>self.df\<close>, sorted by time, each a
  feature row with its target; \<open>saved_model st name\<close> for the prediction of the model
  saved under that name on one window.
\<close>

record conf_row =
  row_margin :: fl
  row_coverage :: fl
  row_avg_width :: fl
  row_index_diff :: int

record 'f pipeline =
  random_state :: nat
  sequence_length :: nat
  results_metrics :: "(string \<times> score) list"
  groups :: "nat list"
  X_dl :: "'f list list"
  y_dl :: "real list"
  ml_groups :: "nat list"
  X_ml :: "'f list list"
  y_ml :: "real list"
  df_unit :: "nat \<Rightarrow> ('f \<times> real) list"
  saved_model :: "string \<Rightarrow> 'f list \<Rightarrow> real"
  conformal_results_df :: "(string \<times> conf_row) list option"
  conformal_inference :: "(string \<times> fl) option"

text \<open>
  Lines 467-470: \<^verbatim>\<open>np.unique\<close> sorts the distinct unit identifiers, and the first
  \<^verbatim>\<open>int(0.8 * len(unique_units))\<close> of them calibrate; the product truncates to
  \<open>4 * n div 5\<close>. \<open>rows_of grp units a\<close> is \<^verbatim>\<open>a[np.isin(grp, units)]\<close>.
\<close>

definition np_unique :: "nat list \<Rightarrow> nat list" where
  "np_unique a = sort (remdups a)"

definition split_units :: "nat list \<Rightarrow> nat list \<times> nat list" where
  "split_units unique_units =
     (let n_train_units = (4 * length unique_units) div 5
      in (take n_train_units unique_units, drop n_train_units unique_units))"

definition rows_of :: "nat list \<Rightarrow> nat list \<Rightarrow> 'a list \<Rightarrow> 'a list" where
  "rows_of grp units a = map snd (filter (\<lambda>(g, x). g \<in> set units) (zip grp a))"

text \<open>
  Lines 476-485 (and 642-651, 806-813): the windows and the targets of the rows of a list
  of units, from the sequence arrays for a Keras model and from the lagged arrays for
  the tree model.
\<close>

definition split_rows :: "bool \<Rightarrow> nat list \<Rightarrow> 'f pipeline \<Rightarrow> 'f list list \<times> real list" where
  "split_rows is_keras_model units st =
     (if is_keras_model
      then (rows_of (groups st) units (X_dl st), rows_of (groups st) units (y_dl st))
      else (rows_of (ml_groups st) units (X_ml st), rows_of (ml_groups st) units (y_ml st)))"

text \<open>
  Lines 899-903 (and 1083-1085): one window per index of \<^verbatim>\<open>range(len(unit_features) -
  sequence_length)\<close>.
\<close>

definition sliding_windows :: "nat \<Rightarrow> 'a list \<Rightarrow> 'a list list" where
  "sliding_windows L unit_features =
     map (\<lambda>i. take L (drop i unit_features)) [0..<length unit_features - L]"

subsection \<open>Coverage, width and index difference\<close>

text \<open>
  The lower bounds for a margin that may be \<^verbatim>\<open>nan\<close> (then every bound is \<^verbatim>\<open>nan\<close>).
\<close>

definition lower_bound_fl :: "real list \<Rightarrow> fl \<Rightarrow> fl list" where
  "lower_bound_fl preds m =
     (case m of Fin margin \<Rightarrow> map Fin (lower_bound preds margin) | NaN \<Rightarrow> map (\<lambda>p. NaN) preds)"

text \<open>
  Lines 537-542: \<^verbatim>\<open>np.where(a <= 0)[0]\<close> is the ascending list of the indices whose entry
  is at most 0; its first element is taken, or \<^verbatim>\<open>len(a) - 1\<close> when there is none.
\<close>

definition first_index :: "bool list \<Rightarrow> int" where
  "first_index flags =
     (let k = length (takeWhile (\<lambda>b. b = False) flags)
      in if k < length flags then int k else int (length flags) - 1)"

definition compute_index_difference :: "fl list \<Rightarrow> real list \<Rightarrow> int" where
  "compute_index_difference lower_bounds actual =
     (let idx_conf = first_index (map (\<lambda>l. fl_le l (Fin 0)) lower_bounds);
          idx_actual = first_index (map (\<lambda>v. v \<le> 0) actual)
      in abs (idx_conf - idx_actual))"

text \<open>
  Lines 547-548 (and 735-736, 867, 918-919): the fraction of true values inside the
  interval, and the mean width. A comparison with \<^verbatim>\<open>nan\<close> is false.
\<close>

definition coverage_of :: "real list \<Rightarrow> real list \<Rightarrow> fl \<Rightarrow> fl" where
  "coverage_of preds y_true m =
     np_mean (map (\<lambda>(y, l, u). if fl_le l (Fin y) \<and> fl_le (Fin y) u then 1 else 0)
                  (zip y_true (zip (lower_bound_fl preds m) (map Fin (upper_bound preds)))))"

definition avg_width_of :: "real list \<Rightarrow> fl \<Rightarrow> fl" where
  "avg_width_of preds m =
     np_mean_fl (map2 fl_sub (map Fin (upper_bound preds)) (lower_bound_fl preds m))"

text \<open>Lines 545-555 (and 732-744, 917-920): one row of the result table.\<close>

definition interval_metrics :: "real list \<Rightarrow> real list \<Rightarrow> fl \<Rightarrow> conf_row" where
  "interval_metrics preds y_true m =
     \<lparr>row_margin = m,
      row_coverage = coverage_of preds y_true m,
      row_avg_width = avg_width_of preds m,
      row_index_diff = compute_index_difference (lower_bound_fl preds m) y_true\<rparr>"

subsection \<open>The global interval: \<^verbatim>\<open>plot_conformal_prediction_interval\<close>\<close>

text \<open>
  Lines 438-556 without the printing and plotting. An array whose \<^verbatim>\<open>size\<close> is 0 is one
  without rows. The method stores the table in \<^verbatim>\<open>self.conformal_results_df\<close> and
  returns it; on an early exit it returns \<^verbatim>\<open>None\<close> and stores nothing.
\<close>

definition conformal_table :: "'g bitgen \<Rightarrow> real \<Rightarrow> 'f pipeline \<Rightarrow> stop + (string \<times> conf_row) list" where
  "conformal_table G alpha st =
     bind_stop (identify_best_model (results_metrics st)) (\<lambda>best_model_name.
     bind_stop (load_best_model best_model_name) (\<lambda>is_keras_model.
       (let unique_units = np_unique (groups st);
            train_units = fst (split_units unique_units);
            test_units = snd (split_units unique_units)
        in if train_units = [] \<or> test_units = [] then Inl NotEnoughUnits
           else (let X_train = fst (split_rows is_keras_model train_units st);
                     y_train = snd (split_rows is_keras_model train_units st);
                     X_test = fst (split_rows is_keras_model test_units st);
                     y_test = snd (split_rows is_keras_model test_units st)
                 in if X_train = [] \<or> X_test = [] then Inl NoData
                    else (let model_predict_fn = map (saved_model st best_model_name);
                              absolute_residuals = abs_residuals y_train (model_predict_fn X_train)
                          in bind_stop (margin_dict_global G (random_state st) absolute_residuals alpha)
                               (\<lambda>margin_dict.
                                  (let tpreds = postprocess_global (model_predict_fn X_test)
                                   in Inr (map (\<lambda>(name, margin). (name, interval_metrics tpreds y_test margin))
                                             margin_dict))))))))"

definition plot_conformal_prediction_interval ::
  "'g bitgen \<Rightarrow> real \<Rightarrow> 'f pipeline \<Rightarrow> (stop + (string \<times> conf_row) list) \<times> 'f pipeline" where
  "plot_conformal_prediction_interval G alpha st =
     (case conformal_table G alpha st of
        Inl e \<Rightarrow> (Inl e, st)
      | Inr conf_df \<Rightarrow> (Inr conf_df, st\<lparr>conformal_results_df := Some conf_df\<rparr>))"

subsection \<open>The single unit: \<^verbatim>\<open>plot_conformal_single_unit\<close>\<close>

text \<open>
  Lines 597-747, the whole body of the method: the block that follows in the file
  (lines 938-1014) comes after the \<^verbatim>\<open>return results_df\<close> of the next method and is never
  run. The body builds the table of the candidates on the calibration set and ends; the
  method returns \<^verbatim>\<open>None\<close> on every path. \<open>norm_ppf\<close> is scipy's \<^verbatim>\<open>norm.ppf\<close>.
\<close>

definition single_unit_table ::
  "'g bitgen \<Rightarrow> (real \<Rightarrow> real) \<Rightarrow> real \<Rightarrow> 'f pipeline \<Rightarrow> stop + (string \<times> conf_row) list" where
  "single_unit_table G norm_ppf alpha st =
     bind_stop (identify_best_model (results_metrics st)) (\<lambda>best_model_name.
     bind_stop (load_best_model best_model_name) (\<lambda>is_keras_model.
       (let unique_units = np_unique (groups st);
            train_units = fst (split_units unique_units)
        in if train_units = [] then Inl NotEnoughUnits
           else (let X_cal = fst (split_rows is_keras_model train_units st);
                     y_cal = snd (split_rows is_keras_model train_units st)
                 in if X_cal = [] then Inl NoData
                    else (let p_cal = map (saved_model st best_model_name) X_cal
                          in bind_stop (margin_dict_unit G (random_state st) (norm_ppf (1 - alpha))
                                          y_cal p_cal alpha)
                               (\<lambda>margin_dict.
                                  Inr (map (\<lambda>(name, margin).
                                              (name, interval_metrics (clip0 p_cal) y_cal margin))
                                         margin_dict)))))))"

definition plot_conformal_single_unit ::
  "'g bitgen \<Rightarrow> (real \<Rightarrow> real) \<Rightarrow> nat \<Rightarrow> real \<Rightarrow> 'f pipeline \<Rightarrow> (stop + unit) \<times> 'f pipeline" where
  "plot_conformal_single_unit G norm_ppf unit_id alpha st =
     (case single_unit_table G norm_ppf alpha st of
        Inl e \<Rightarrow> (Inl e, st)
      | Inr conf_df \<Rightarrow> (Inr (), st))"

subsection \<open>Per-unit metrics: \<^verbatim>\<open>evaluate_conformal_metrics_per_unit\<close>\<close>

text \<open>
  \<^verbatim>\<open>max(candidate_coverages, key=candidate_coverages.get)\<close>: the first entry, replaced only
  by a later one whose coverage is larger.
\<close>

fun py_max :: "string \<times> fl \<Rightarrow> (string \<times> fl) list \<Rightarrow> string \<times> fl" where
  "py_max best [] = best"
| "py_max best (c # cs) = py_max (if fl_less (snd best) (snd c) then c else best) cs"

text \<open>
  Lines 857-875. \<open>margin_method\<close> is the value of \<^verbatim>\<open>margin_method.lower()\<close>.
\<close>

definition select_margin :: "string \<Rightarrow> (string \<times> fl) list \<Rightarrow> real list \<Rightarrow> real list \<Rightarrow> stop + fl" where
  "select_margin margin_method candidates y_cal p_cal =
     (if margin_method = ''complex'' then Inr (np_median_fl (map snd candidates))
      else if margin_method = ''best'' then
        (let preds_cal = clip0 p_cal;
             candidate_coverages =
               map (\<lambda>(key, margin_val). (key, coverage_of preds_cal y_cal margin_val)) candidates
         in case candidate_coverages of
              [] \<Rightarrow> Inl (Raised ValueError)
            | c # cs \<Rightarrow>
                (case map_of candidates (fst (py_max c cs)) of
                   None \<Rightarrow> Inl (Raised KeyError)
                 | Some best_margin \<Rightarrow> Inr best_margin))
      else Inl InvalidMarginMethod)"

text \<open>
  Lines 888-929, the body of the loop over the test units: a unit with fewer rows than
  \<^verbatim>\<open>sequence_length\<close>, or with no window, is reported and skipped. The row holds the
  unit, the number of predictions and the metrics.
\<close>

definition evaluate_unit :: "'f pipeline \<Rightarrow> string \<Rightarrow> fl \<Rightarrow> nat \<Rightarrow> stop + nat \<times> nat \<times> conf_row" where
  "evaluate_unit st best_model_name best_margin unit =
     (let unit_df = df_unit st unit
      in if length unit_df < sequence_length st then Inl UnitTooShort
         else (let unit_features = map fst unit_df;
                   unit_target = map snd unit_df;
                   X_list = sliding_windows (sequence_length st) unit_features;
                   y_true = drop (sequence_length st) unit_target
               in if X_list = [] then Inl UnitNoWindows
                  else (let preds = postprocess_unit (map (saved_model st best_model_name) X_list)
                        in Inr (unit, length preds, interval_metrics preds y_true best_margin))))"

definition evaluate_units :: "'f pipeline \<Rightarrow> string \<Rightarrow> fl \<Rightarrow> nat list \<Rightarrow> (nat \<times> nat \<times> conf_row) list" where
  "evaluate_units st best_model_name best_margin test_units =
     concat (map (\<lambda>unit. case evaluate_unit st best_model_name best_margin unit of
                            Inl e \<Rightarrow> []
                          | Inr row \<Rightarrow> [row])
                 test_units)"

text \<open>
  Lines 762-936. The method assigns no field of the object; it returns the table, or
  \<^verbatim>\<open>None\<close> on an early exit.
\<close>

definition evaluate_conformal_metrics_per_unit ::
  "'g bitgen \<Rightarrow> (real \<Rightarrow> real) \<Rightarrow> real \<Rightarrow> string \<Rightarrow> 'f pipeline
     \<Rightarrow> (stop + (nat \<times> nat \<times> conf_row) list) \<times> 'f pipeline" where
  "evaluate_conformal_metrics_per_unit G norm_ppf alpha margin_method st =
     (bind_stop (identify_best_model_per_unit (results_metrics st)) (\<lambda>best_model_name.
      bind_stop (load_best_model best_model_name) (\<lambda>is_keras_model.
        (let groups_array = (if is_keras_model then groups st else ml_groups st);
             unique_units = np_unique groups_array;
             train_units = fst (split_units unique_units);
             test_units = snd (split_units unique_units)
         in if train_units = [] \<or> test_units = [] then Inl NotEnoughUnits
            else (let X_cal = fst (split_rows is_keras_model train_units st);
                      y_cal = snd (split_rows is_keras_model train_units st);
                      p_cal = map (saved_model st best_model_name) X_cal
                  in bind_stop (margin_candidates G (random_state st) (norm_ppf (1 - alpha))
                                  y_cal p_cal alpha) (\<lambda>candidates.
                     bind_stop (select_margin margin_method candidates y_cal p_cal) (\<lambda>best_margin.
                       Inr (evaluate_units st best_model_name best_margin test_units))))))),
      st)"

subsection \<open>Several units: \<^verbatim>\<open>plot_conformal_multiple_units\<close>\<close>




subsection \<open>A small pipeline object\<close>

text \<open>
  Two units of four rows each (features 1, 2, 3, 4; targets 6, 5, 4, 3) with windows of
  length 2, as \<^verbatim>\<open>_prepare_data\<close> and \<^verbatim>\<open>_prepare_ml_data\<close> lay them out, two trained models
  and nothing cached yet.
\<close>

definition demo_model :: "string \<Rightarrow> nat list \<Rightarrow> real" where
  "demo_model name window = 10 - real (sum_list window)"

definition demo_pipeline :: "nat pipeline" where
  "demo_pipeline =
     \<lparr>random_state = 42,
      sequence_length = 2,
      results_metrics = [(''LSTM'', Score 300), (''XGBoost'', Score 120)],
      groups = [1, 1, 2, 2],
      X_dl = [[1, 2], [2, 3], [1, 2], [2, 3]],
      y_dl = [4, 3, 4, 3],
      ml_groups = [1, 1, 2, 2],
      X_ml = [[1, 2], [2, 3], [1, 2], [2, 3]],
      y_ml = [4, 3, 4, 3],
      df_unit = (\<lambda>u. if u = 1 \<or> u = 2 then [(1, 6), (2, 5), (3, 4), (4, 3)] else []),
      saved_model = demo_model,
      conformal_results_df = None,
      conformal_inference = None\<rparr>"

text \<open>
  The dictionary \<^verbatim>\<open>run_experiment\<close> leaves when no model could be trained: every
  \<^verbatim>\<open>"S-score"\<close> is \<^verbatim>\<open>np.nan\<close>.
\<close>

definition untrained_metrics :: "(string \<times> score) list" where
  "untrained_metrics =
     [(''LSTM'', ScoreNaN), (''BiLSTM'', ScoreNaN), (''NBEATS'', ScoreNaN),
      (''CNNGRU'', ScoreNaN), (''XGBoost'', ScoreNaN)]"

section \<open>The post-processing loop\<close>

lemma length_monotonic_loop: "length (monotonic_loop i preds) = length preds"
proof (induction i preds rule: monotonic_loop.induct)
  case (1 i preds)
  show ?case
  proof (cases "i < length preds")
    case True
    then show ?thesis
      using "1.IH" by (subst monotonic_loop.simps) simp
  next
    case False
    then show ?thesis by (subst monotonic_loop.simps) simp
  qed
qed

lemma length_clip0: "length (clip0 a) = length a"
  by (simp add: clip0_def)

lemma clip0_step:
  assumes "0 < i" "i < length preds"
  shows "clip0 (if preds ! i > preds ! (i - 1) then preds[i := preds ! (i - 1)] else preds)
       = (if clip0 preds ! i > clip0 preds ! (i - 1) then (clip0 preds)[i := clip0 preds ! (i - 1)] else clip0 preds)"
proof -
  have im: "i - 1 < length preds" using assms by simp
  have a: "clip0 preds ! i = max (preds ! i) 0" "clip0 preds ! (i - 1) = max (preds ! (i - 1)) 0"
    using assms im by (simp_all add: clip0_def)
  show ?thesis
  proof (cases "preds ! i > preds ! (i - 1)")
    case raw: True
    show ?thesis
    proof (cases "clip0 preds ! i > clip0 preds ! (i - 1)")
      case True
      then show ?thesis using raw a by (simp add: clip0_def map_update)
    next
      case False
      then have eq: "max (preds ! (i - 1)) 0 = clip0 preds ! i" using raw a by (simp add: max_def split: if_splits)
      have "clip0 (preds[i := preds ! (i - 1)]) = (clip0 preds)[i := max (preds ! (i - 1)) 0]"
        by (simp add: clip0_def map_update)
      also have "\<dots> = clip0 preds" unfolding eq by (rule list_update_id)
      finally show ?thesis using raw False by simp
    qed
  next
    case raw: False
    then have "\<not> clip0 preds ! i > clip0 preds ! (i - 1)" using a by (simp add: max_def)
    then show ?thesis using raw by simp
  qed
qed

lemma monotonic_loop_clip0:
  "0 < i \<Longrightarrow> monotonic_loop i (clip0 preds) = clip0 (monotonic_loop i preds)"
proof (induction i preds rule: monotonic_loop.induct)
  case (1 i preds)
  show ?case
  proof (cases "i < length preds")
    case True
    define preds' where "preds' = (if preds ! i > preds ! (i - 1) then preds[i := preds ! (i - 1)] else preds)"
    have step: "clip0 preds' = (if clip0 preds ! i > clip0 preds ! (i - 1) then (clip0 preds)[i := clip0 preds ! (i - 1)] else clip0 preds)"
      unfolding preds'_def using clip0_step[OF "1.prems" True] .
    have "monotonic_loop i (clip0 preds) = monotonic_loop (i + 1) (clip0 preds')"
      using True by (subst monotonic_loop.simps) (simp add: step length_clip0)
    also have "\<dots> = clip0 (monotonic_loop (i + 1) preds')"
      using "1.IH"[OF True] by (simp add: preds'_def)
    also have "\<dots> = clip0 (monotonic_loop i preds)"
      using True by (subst (2) monotonic_loop.simps) (simp add: preds'_def)
    finally show ?thesis .
  next
    case False
    then show ?thesis by (subst (1 2) monotonic_loop.simps) (simp add: length_clip0)
  qed
qed

lemma postprocess_global_eq_unit: "postprocess_global preds = postprocess_unit preds"
  by (simp add: postprocess_global_def postprocess_unit_def monotonic_pass_def monotonic_loop_clip0)

lemma monotonic_loop_adjacent:
  "0 < i \<Longrightarrow> (\<forall>j. 0 < j \<and> j < i \<longrightarrow> preds ! j \<le> preds ! (j - 1)) \<Longrightarrow>
   0 < j \<Longrightarrow> j < length preds \<Longrightarrow> monotonic_loop i preds ! j \<le> monotonic_loop i preds ! (j - 1)"
proof (induction i preds rule: monotonic_loop.induct)
  case (1 i preds)
  show ?case
  proof (cases "i < length preds")
    case True
    define preds' where "preds' = (if preds ! i > preds ! (i - 1) then preds[i := preds ! (i - 1)] else preds)"
    have len: "length preds' = length preds" by (simp add: preds'_def)
    have inv: "\<forall>j. 0 < j \<and> j < i + 1 \<longrightarrow> preds' ! j \<le> preds' ! (j - 1)"
    proof (intro allI impI)
      fix k assume k: "0 < k \<and> k < i + 1"
      show "preds' ! k \<le> preds' ! (k - 1)"
      proof (cases "k = i")
        case True
        then show ?thesis using \<open>i < length preds\<close> "1.prems"(1) by (auto simp: preds'_def)
      next
        case False
        then have "k < i" using k by simp
        then have "preds' ! k = preds ! k" "preds' ! (k - 1) = preds ! (k - 1)"
          by (auto simp: preds'_def)
        then show ?thesis using "1.prems"(2) k \<open>k < i\<close> by simp
      qed
    qed
    have "monotonic_loop (i + 1) preds' ! j \<le> monotonic_loop (i + 1) preds' ! (j - 1)"
      using "1.IH"[OF True, folded preds'_def] inv "1.prems"(3,4) len by simp
    then show ?thesis
      using True by (subst (1 2) monotonic_loop.simps) (simp add: preds'_def)
  next
    case False
    then have "monotonic_loop i preds = preds" by (subst monotonic_loop.simps) simp
    then show ?thesis using "1.prems" False by simp
  qed
qed

lemma postprocess_unit_length: "length (postprocess_unit raw) = length raw"
  by (simp add: postprocess_unit_def monotonic_pass_def length_clip0 length_monotonic_loop)

lemma postprocess_unit_nonneg: "i < length raw \<Longrightarrow> 0 \<le> postprocess_unit raw ! i"
  by (simp add: postprocess_unit_def monotonic_pass_def clip0_def length_monotonic_loop)

lemma postprocess_unit_adjacent:
  assumes "0 < i" "i < length raw"
  shows "postprocess_unit raw ! i \<le> postprocess_unit raw ! (i - 1)"
proof -
  have "monotonic_loop 1 raw ! i \<le> monotonic_loop 1 raw ! (i - 1)"
    using monotonic_loop_adjacent[of 1 raw i] assms by simp
  moreover have "i < length (monotonic_loop 1 raw)" "i - 1 < length (monotonic_loop 1 raw)"
    using assms by (simp_all add: length_monotonic_loop)
  ultimately show ?thesis
    by (simp add: postprocess_unit_def monotonic_pass_def clip0_def)
qed

text \<open>
  Claim C1. For every raw prediction sequence, the post-processor (the loop, then the
  clip at 0) returns a sequence of the same length in which no entry exceeds the one
  before it and no entry is negative; the global site, which clips first, returns the
  same sequence; and the raw trajectory \<open>[10, 12, 8, 5, 6, -1, 0]\<close> becomes
  \<open>[10, 10, 8, 5, 5, 0, 0]\<close>.
\<close>

theorem postprocess_nonincreasing_nonnegative:
  "(\<forall>i. 0 < i \<and> i < length (postprocess_unit raw)
         \<longrightarrow> postprocess_unit raw ! i \<le> postprocess_unit raw ! (i - 1))
   \<and> (\<forall>i. i < length (postprocess_unit raw) \<longrightarrow> 0 \<le> postprocess_unit raw ! i)
   \<and> length (postprocess_unit raw) = length raw
   \<and> postprocess_global raw = postprocess_unit raw
   \<and> postprocess_unit [10, 12, 8, 5, 6, - 1, 0] = [10, 10, 8, 5, 5, 0, 0]"
proof -
  have "postprocess_unit [10, 12, 8, 5, 6, - 1, 0] = [10, 10, 8, 5, 5, 0, 0]"
    by (simp add: postprocess_unit_def monotonic_pass_def clip0_def monotonic_loop.simps)
  then show ?thesis
    using postprocess_unit_adjacent[of _ raw] postprocess_unit_nonneg[of _ raw]
    by (simp add: postprocess_unit_length postprocess_global_eq_unit)
qed

text \<open>The theorem at the trajectory of the scenario, at the indices 1 and 5.\<close>

theorem postprocess_scenario_B:
  "postprocess_unit [10, 12, 8, 5, 6, - 1, 0] ! 1 \<le> postprocess_unit [10, 12, 8, 5, 6, - 1, 0] ! 0
   \<and> 0 \<le> postprocess_unit [10, 12, 8, 5, 6, - 1, 0] ! 5
   \<and> postprocess_global [10, 12, 8, 5, 6, - 1, 0] = [10, 10, 8, 5, 5, 0, 0]"
proof -
  let ?raw = "[10, 12, 8, 5, 6, - 1, 0] :: real list"
  note c1 = postprocess_nonincreasing_nonnegative[of ?raw]
  have len: "length (postprocess_unit ?raw) = 7" using c1 by simp
  have "0 < (1::nat) \<and> 1 < length (postprocess_unit ?raw)" using len by simp
  then have a: "postprocess_unit ?raw ! 1 \<le> postprocess_unit ?raw ! (1 - 1)" using c1 by blast
  have "5 < length (postprocess_unit ?raw)" using len by simp
  then have b: "0 \<le> postprocess_unit ?raw ! 5" using c1 by blast
  have c: "postprocess_global ?raw = [10, 10, 8, 5, 5, 0, 0]" using c1 by simp
  show ?thesis using a b c by simp
qed

section \<open>The order of the loop and the clip\<close>

lemma run_ops_loop_clip: "run_ops [MonotonicLoop, ClipZero] raw = postprocess_unit raw"
  by (simp add: run_ops_def postprocess_unit_def)

lemma run_ops_clip_loop: "run_ops [ClipZero, MonotonicLoop] raw = postprocess_global raw"
  by (simp add: run_ops_def postprocess_global_def)

text \<open>
  As stated, claim C8 asks that every site run the loop on the raw predictions. At the
  global site the loop runs on the clipped array: for the raw predictions \<open>[-1, 2]\<close>
  it is handed \<open>[0, 2]\<close>.
\<close>

theorem global_site_loop_runs_on_clipped:
  "loop_input (site_ops GlobalInterval) [- 1, 2] \<noteq> Some [- 1, 2]"
  by (simp add: clip0_def)

text \<open>
  Claim C8, amended. The per-unit and the multi-unit site run the loop on the raw
  predictions and clip the result; the global site clips the predictions on receipt and
  runs the loop on the clipped array; for every input the two orders return the same
  trajectory.
\<close>

theorem loop_and_clip_order_by_site:
  "site_ops PerUnitMetrics = [MonotonicLoop, ClipZero]
   \<and> site_ops MultipleUnits = [MonotonicLoop, ClipZero]
   \<and> site_ops GlobalInterval = [ClipZero, MonotonicLoop]
   \<and> loop_input (site_ops PerUnitMetrics) raw = Some raw
   \<and> loop_input (site_ops MultipleUnits) raw = Some raw
   \<and> loop_input (site_ops GlobalInterval) raw = Some (clip0 raw)
   \<and> run_ops (site_ops PerUnitMetrics) raw = postprocess_unit raw
   \<and> run_ops (site_ops MultipleUnits) raw = postprocess_unit raw
   \<and> run_ops (site_ops GlobalInterval) raw = postprocess_global raw
   \<and> postprocess_global raw = postprocess_unit raw"
  by (simp add: run_ops_loop_clip run_ops_clip_loop postprocess_global_eq_unit)

text \<open>The theorem on the raw predictions \<open>[-1, 2]\<close>.\<close>

theorem loop_and_clip_order_example:
  "run_ops (site_ops GlobalInterval) [- 1, 2] = postprocess_unit [- 1, 2]
   \<and> loop_input (site_ops GlobalInterval) [- 1, 2] = Some (clip0 [- 1, 2])"
  using loop_and_clip_order_by_site[of "[- 1, 2]"] by simp

section \<open>The interval builder\<close>

text \<open>
  As stated, claim C6 promises \<open>lower[i] \<le> upper[i]\<close> for every margin. With the margin
  \<open>-1\<close> on the one-step trajectory \<open>[5]\<close> the lower bound is 6 and the upper bound 5.
\<close>

theorem negative_margin_lower_above_upper:
  "\<not> lower_bound (postprocess_unit [5]) (- 1) ! 0 \<le> upper_bound (postprocess_unit [5]) ! 0"
  by (simp add: lower_bound_def upper_bound_def postprocess_unit_def monotonic_pass_def clip0_def
        monotonic_loop.simps)

text \<open>
  Claim C6, amended. On a post-processed trajectory and for every margin, at every step
  the upper bound is the prediction and the lower bound is \<open>max 0 (traj[i] - margin)\<close>;
  the lower bound is 0 whenever the margin is at least the prediction; for every
  non-negative margin the lower bound does not exceed the upper bound; and the margin 0
  gives an interval of width zero.
\<close>

theorem interval_builder_bounds:
  assumes "traj = postprocess_unit raw" and "i < length traj"
  shows "length (lower_bound traj margin) = length traj
         \<and> upper_bound traj ! i = traj ! i
         \<and> lower_bound traj margin ! i = max 0 (traj ! i - margin)
         \<and> (0 \<le> margin \<longrightarrow> lower_bound traj margin ! i \<le> upper_bound traj ! i)
         \<and> (traj ! i \<le> margin \<longrightarrow> lower_bound traj margin ! i = 0)
         \<and> lower_bound traj 0 = upper_bound traj"
proof -
  have nn: "\<And>j. j < length traj \<Longrightarrow> 0 \<le> traj ! j"
    using assms(1) postprocess_unit_nonneg[of _ raw] by (simp add: postprocess_unit_length)
  have "lower_bound traj 0 = upper_bound traj"
    by (rule nth_equalityI) (use nn in \<open>simp_all add: lower_bound_def upper_bound_def clip0_def\<close>)
  then show ?thesis
    using nn[OF assms(2)] assms(2) by (simp add: lower_bound_def upper_bound_def clip0_def max_def)
qed

text \<open>
  The theorem on the trajectory of scenario C with the margin 3, at the steps 3 and 5.
\<close>

theorem interval_builder_scenario_C:
  "lower_bound (postprocess_unit [10, 12, 8, 5, 6, - 1, 0]) 3 ! 3 = 2
   \<and> lower_bound (postprocess_unit [10, 12, 8, 5, 6, - 1, 0]) 3 ! 3
       \<le> upper_bound (postprocess_unit [10, 12, 8, 5, 6, - 1, 0]) ! 3
   \<and> lower_bound (postprocess_unit [10, 12, 8, 5, 6, - 1, 0]) 3 ! 5 = 0"
proof -
  let ?t = "postprocess_unit [10, 12, 8, 5, 6, - 1, 0]"
  have t: "?t = [10, 10, 8, 5, 5, 0, 0]"
    by (simp add: postprocess_unit_def monotonic_pass_def clip0_def monotonic_loop.simps)
  have len: "(3::nat) < length ?t" "(5::nat) < length ?t"
    by (simp_all add: postprocess_unit_length)
  note c3 = interval_builder_bounds[OF refl len(1), of 3]
  note c5 = interval_builder_bounds[OF refl len(2), of 3]
  have a: "lower_bound ?t 3 ! 3 = max 0 (?t ! 3 - 3)" using c3 by blast
  have "(0::real) \<le> 3" by simp
  then have a': "lower_bound ?t 3 ! 3 \<le> upper_bound ?t ! 3" using c3 by blast
  have "?t ! 5 \<le> 3" by (simp add: t)
  then have b: "lower_bound ?t 3 ! 5 = 0" using c5 by blast
  have "lower_bound ?t 3 ! 3 = 2" using a by (simp add: t)
  then show ?thesis using a' b by simp
qed

section \<open>Sorting, cumulative sums and the search\<close>

lemma length_argsort: "length (argsort a) = length a"
  by (simp add: argsort_def)

lemma set_argsort: "set (argsort a) = {..<length a}"
  by (auto simp add: argsort_def)

lemma map_nth_argsort: "map (\<lambda>i. a ! i) (argsort a) = sort a"
proof -
  have "sort (map (\<lambda>i. a ! i) [0..<length a]) = map (\<lambda>i. a ! i) (sort_key (\<lambda>i. a ! i) [0..<length a])"
    by (rule properties_for_sort) (simp_all add: sorted_sort_key)
  then show ?thesis by (simp add: argsort_def map_nth)
qed

lemma sort_nth_argsort: "k < length a \<Longrightarrow> sort a ! k = a ! (argsort a ! k)"
  using map_nth_argsort[of a, symmetric] by (simp add: length_argsort)

lemma length_cumsum_from: "length (cumsum_from acc ws) = length ws"
  by (induction ws arbitrary: acc) simp_all

lemma cumsum_from_nth:
  "k < length ws \<Longrightarrow> cumsum_from acc ws ! k = acc + (\<Sum>j\<le>k. ws ! j)"
proof (induction ws arbitrary: acc k)
  case Nil
  then show ?case by simp
next
  case (Cons w ws)
  show ?case
  proof (cases k)
    case 0
    then show ?thesis by simp
  next
    case (Suc k')
    then have "k' < length ws" using Cons.prems by simp
    then have "cumsum_from (acc + w) ws ! k' = acc + w + (\<Sum>j\<le>k'. ws ! j)"
      by (rule Cons.IH)
    moreover have "(\<Sum>j\<le>Suc k'. (w # ws) ! j) = w + (\<Sum>j\<le>k'. ws ! j)"
      by (subst sum.atMost_Suc_shift) simp
    ultimately show ?thesis using Suc by simp
  qed
qed

lemma cumsum_nth: "k < length ws \<Longrightarrow> cumsum ws ! k = (\<Sum>j\<le>k. ws ! j)"
  by (simp add: cumsum_def cumsum_from_nth)

lemma searchsorted_reaches:
  "searchsorted cdf v < length cdf \<Longrightarrow> v \<le> cdf ! searchsorted cdf v"
  using nth_length_takeWhile[of "\<lambda>c. c < v" cdf] by (simp add: searchsorted_def)

lemma searchsorted_before:
  "k < searchsorted cdf v \<Longrightarrow> cdf ! k < v"
  using takeWhile_nth[of k "\<lambda>c. c < v" cdf] nth_mem[of k "takeWhile (\<lambda>c. c < v) cdf"]
  by (auto simp: searchsorted_def dest: set_takeWhileD)

lemma searchsorted_less_if_last:
  assumes "cdf \<noteq> []" "v \<le> last cdf"
  shows "searchsorted cdf v < length cdf"
proof (rule ccontr)
  assume "\<not> searchsorted cdf v < length cdf"
  then have "length (takeWhile (\<lambda>c. c < v) cdf) = length cdf"
    using length_takeWhile_le[of "\<lambda>c. c < v" cdf] by (simp add: searchsorted_def)
  then have "takeWhile (\<lambda>c. c < v) cdf = cdf"
    by (metis takeWhile_eq_take take_all order_refl)
  then have "\<forall>c\<in>set cdf. c < v" by (metis set_takeWhileD)
  then have "last cdf < v" using assms(1) by simp
  then show False using assms(2) by simp
qed

lemma sum_argsort: "(\<Sum>j<length a. f (argsort a ! j)) = (\<Sum>i<length a. f i)"
proof -
  have "(\<Sum>j<length a. f (argsort a ! j)) = sum_list (map f (argsort a))"
    by (simp add: sum_list_sum_nth length_argsort atLeast0LessThan)
  also have "\<dots> = sum_mset (mset (map f (argsort a)))"
    by (simp only: sum_mset_sum_list)
  also have "mset (map f (argsort a)) = mset (map f [0..<length a])"
    by (simp add: argsort_def)
  also have "sum_mset (mset (map f [0..<length a])) = sum_list (map f [0..<length a])"
    by (simp only: sum_mset_sum_list)
  also have "\<dots> = (\<Sum>i<length a. f i)"
    by (simp add: sum_list_sum_nth atLeast0LessThan)
  finally show ?thesis .
qed

section \<open>The weighted estimator\<close>

lemma position_weight_pos: "0 < position_weight n i"
  by (simp add: position_weight_def)

lemma weighted_exponential_margin_unfold:
  assumes "a \<noteq> []"
  shows "weighted_exponential_margin a alpha =
         Inr (sort a ! min (searchsorted (cumsum (map (position_weight (length a)) (argsort a)))
                              ((1 - alpha) * last (cumsum (map (position_weight (length a)) (argsort a)))))
                           (length a - 1))"
proof -
  have w: "map (\<lambda>i. map (position_weight (length a)) [0..<length a] ! i) (argsort a)
         = map (position_weight (length a)) (argsort a)"
    by (rule map_cong[OF refl]) (simp add: set_argsort)
  have ne: "cumsum (map (position_weight (length a)) (argsort a)) \<noteq> []"
  proof
    assume "cumsum (map (position_weight (length a)) (argsort a)) = []"
    then have "length (cumsum (map (position_weight (length a)) (argsort a))) = 0"
      by simp
    then show False using assms by (simp add: cumsum_def length_cumsum_from length_argsort)
  qed
  show ?thesis
    unfolding weighted_exponential_margin_def Let_def w using ne by simp
qed

lemma weighted_cdf_facts:
  assumes "a \<noteq> []"
  defines "cdf \<equiv> cumsum (map (position_weight (length a)) (argsort a))"
  shows "length cdf = length a"
    and "\<And>k. k < length a \<Longrightarrow> cdf ! k = (\<Sum>j\<le>k. position_weight (length a) (argsort a ! j))"
    and "last cdf = (\<Sum>i<length a. position_weight (length a) i)"
proof -
  show len: "length cdf = length a"
    by (simp add: cdf_def cumsum_def length_cumsum_from length_argsort)
  show nth: "cdf ! k = (\<Sum>j\<le>k. position_weight (length a) (argsort a ! j))" if "k < length a" for k
  proof -
    have "cdf ! k = (\<Sum>j\<le>k. map (position_weight (length a)) (argsort a) ! j)"
      unfolding cdf_def using that by (simp add: cumsum_nth length_argsort)
    also have "\<dots> = (\<Sum>j\<le>k. position_weight (length a) (argsort a ! j))"
      by (rule sum.cong[OF refl]) (use that in \<open>simp add: length_argsort\<close>)
    finally show ?thesis .
  qed
  have "cdf \<noteq> []" using len assms(1) by auto
  then have "last cdf = cdf ! (length a - 1)" by (simp add: last_conv_nth len)
  also have "\<dots> = (\<Sum>j\<le>length a - 1. position_weight (length a) (argsort a ! j))"
    using assms(1) by (intro nth) simp
  also have "{..length a - 1} = {..<length a}"
    using assms(1) by (cases a) (simp_all add: lessThan_Suc_atMost)
  also have "(\<Sum>j<length a. position_weight (length a) (argsort a ! j)) = (\<Sum>i<length a. position_weight (length a) i)"
    by (rule sum_argsort)
  finally show "last cdf = (\<Sum>i<length a. position_weight (length a) i)" .
qed

lemma total_weight_pos:
  assumes "a \<noteq> []"
  shows "0 < (\<Sum>i<length a. position_weight (length a) i)"
proof (rule sum_pos)
  show "finite {..<length a}" by simp
  show "{..<length a} \<noteq> {}" using assms by (simp add: lessThan_empty_iff)
  show "\<And>i. i \<in> {..<length a} \<Longrightarrow> 0 < position_weight (length a) i"
    by (simp add: position_weight_pos)
qed

text \<open>
  As stated, claim C4 has the weight follow the rank of a residual in the ascending
  order. On the residuals \<open>[5, 1]\<close> with \<open>alpha = 1/2\<close> the code returns 1, and the
  estimator that weighs by rank returns 5: the code indexes \<^verbatim>\<open>weights\<close> with the
  \<^verbatim>\<open>argsort\<close>, so the smallest residual, which stands at the original position 1,
  carries the larger weight \<open>exp (5/2)\<close>.
\<close>

theorem weighted_margin_not_by_rank:
  "weighted_exponential_margin [5, 1] (1 / 2) = Inr 1
   \<and> spec_rank_weighted_margin [5, 1] (1 / 2) = Inr 5"
proof -
  have e: "1 < exp (5 / 2 :: real)" by simp
  have as: "argsort [5, 1] = [1, 0]"
    by (simp add: argsort_def upt_rec)
  have pw: "position_weight (Suc (Suc 0)) 0 = 1" "position_weight (Suc (Suc 0)) (Suc 0) = exp (5 / 2)"
    by (simp_all add: position_weight_def)
  have a: "weighted_exponential_margin [5, 1] (1 / 2) = Inr 1"
    using e by (simp add: weighted_exponential_margin_def as cumsum_def searchsorted_def pw
        upt_rec numeral_2_eq_2 field_simps)
  have b: "spec_rank_weighted_margin [5, 1] (1 / 2) = Inr 5"
    using e by (simp add: spec_rank_weighted_margin_def cumsum_def searchsorted_def pw
        upt_rec numeral_2_eq_2 field_simps)
  show ?thesis using a b by simp
qed

text \<open>
  Claim C4, amended. For every non-empty residual array of size \<open>n\<close> and every \<open>alpha\<close>
  strictly between 0 and 1, the weighted estimator gives the residual that stands at the
  original position \<open>p\<close> of the input the weight \<open>exp (p / (n / 5))\<close>, accumulates the
  weights over the residuals in ascending order (\<open>argsort a ! j\<close> is the original
  position of the \<open>j\<close>-th smallest residual), and returns the smallest residual whose
  cumulative weight reaches \<open>1 - alpha\<close> of the total weight; its index \<open>k\<close> is below
  \<open>n\<close>.
\<close>

theorem weighted_margin_weights_original_positions:
  assumes "a \<noteq> []" and "0 < alpha" and "alpha < 1"
  shows "\<exists>k<length a.
           weighted_exponential_margin a alpha = Inr (sort a ! k)
         \<and> sort a ! k = a ! (argsort a ! k)
         \<and> (1 - alpha) * (\<Sum>i<length a. position_weight (length a) i)
             \<le> (\<Sum>j\<le>k. position_weight (length a) (argsort a ! j))
         \<and> (\<forall>k'<k. (\<Sum>j\<le>k'. position_weight (length a) (argsort a ! j))
                       < (1 - alpha) * (\<Sum>i<length a. position_weight (length a) i))"
proof -
  define cdf where "cdf = cumsum (map (position_weight (length a)) (argsort a))"
  define total where "total = (\<Sum>i<length a. position_weight (length a) i)"
  define k where "k = searchsorted cdf ((1 - alpha) * total)"
  note facts = weighted_cdf_facts[OF assms(1), folded cdf_def total_def]
  have tpos: "0 < total" unfolding total_def by (rule total_weight_pos[OF assms(1)])
  have "(1 - alpha) * total \<le> 1 * total"
    using assms(2) tpos by (intro mult_right_mono) simp_all
  then have cut: "(1 - alpha) * total \<le> last cdf" by (simp add: facts(3))
  have ne: "cdf \<noteq> []" using facts(1) assms(1) by auto
  have k: "k < length a"
    using searchsorted_less_if_last[OF ne cut] by (simp add: k_def facts(1))
  have "min k (length a - 1) = k" using k by simp
  then have res: "weighted_exponential_margin a alpha = Inr (sort a ! k)"
    by (simp add: weighted_exponential_margin_unfold[OF assms(1)] cdf_def[symmetric]
        facts(3) k_def[symmetric])
  have reach: "(1 - alpha) * total \<le> cdf ! k"
    using searchsorted_reaches[of cdf "(1 - alpha) * total"] k by (simp add: k_def facts(1))
  have before: "cdf ! k' < (1 - alpha) * total" if "k' < k" for k'
    using searchsorted_before[of k' cdf "(1 - alpha) * total"] that by (simp add: k_def)
  have "sort a ! k = a ! (argsort a ! k)" by (rule sort_nth_argsort[OF k])
  moreover have "(1 - alpha) * total \<le> (\<Sum>j\<le>k. position_weight (length a) (argsort a ! j))"
    using reach facts(2)[OF k] by simp
  moreover have "\<forall>k'<k. (\<Sum>j\<le>k'. position_weight (length a) (argsort a ! j)) < (1 - alpha) * total"
    using before facts(2) k by (metis less_trans)
  ultimately show ?thesis using k res unfolding total_def by blast
qed

text \<open>The theorem on the residuals \<open>[5, 1]\<close> with \<open>alpha = 1/2\<close>.\<close>

theorem weighted_margin_two_residuals:
  "\<exists>k<length [5, 1 :: real].
      weighted_exponential_margin [5, 1] (1 / 2) = Inr (sort [5, 1] ! k)
    \<and> sort [5, 1 :: real] ! k = [5, 1] ! (argsort [5, 1] ! k)"
proof -
  have h: "[5, 1 :: real] \<noteq> []" "(0 :: real) < 1 / 2" "(1 :: real) / 2 < 1" by simp_all
  show ?thesis
    using weighted_margin_weights_original_positions[OF h] by blast
qed

section \<open>The margins are finite and non-negative\<close>

lemma length_residuals: "length p_cal = length y_cal \<Longrightarrow> length (residuals y_cal p_cal) = length y_cal"
  by (simp add: residuals_def length_clip0)

lemma length_abs_residuals:
  "length p_cal = length y_cal \<Longrightarrow> length (abs_residuals y_cal p_cal) = length y_cal"
  by (simp add: abs_residuals_def length_residuals)

lemma abs_residuals_nonneg: "x \<in> set (abs_residuals y_cal p_cal) \<Longrightarrow> 0 \<le> x"
  by (auto simp: abs_residuals_def)

lemma quantile_linear_nonneg:
  assumes "a \<noteq> []" and "0 \<le> q" and "q \<le> 1" and nn: "\<And>x. x \<in> set a \<Longrightarrow> 0 \<le> x"
  shows "0 \<le> quantile_linear a q"
proof -
  define n where "n = length a"
  define h where "h = q * real (n - 1)"
  define lo where "lo = nat \<lfloor>h\<rfloor>"
  define hi where "hi = min (lo + 1) (n - 1)"
  define g where "g = h - real lo"
  have npos: "0 < n" using assms(1) by (simp add: n_def)
  have h0: "0 \<le> h" using assms(2) by (simp add: h_def)
  have h1: "h \<le> real (n - 1)"
    using assms(2,3) by (simp add: h_def mult_left_le_one_le)
  have lo_le: "real lo \<le> h" using h0 by (simp add: lo_def)
  have "\<lfloor>h\<rfloor> \<le> int (n - 1)" using h1 by (simp add: floor_le_iff)
  then have lo_n: "lo \<le> n - 1" using h0 by (simp add: lo_def nat_le_iff)
  have g0: "0 \<le> g" using lo_le by (simp add: g_def)
  have "h < real_of_int \<lfloor>h\<rfloor> + 1" by linarith
  moreover have "real lo = real_of_int \<lfloor>h\<rfloor>" using h0 by (simp add: lo_def)
  ultimately have g1: "g \<le> 1" unfolding g_def by linarith
  have "hi \<le> n - 1" unfolding hi_def by (rule min.cobounded2)
  then have "lo < n" "hi < n" using lo_n npos by linarith+
  then have "lo < length (sort a)" "hi < length (sort a)"
    by (simp_all only: length_sort n_def)
  then have "sort a ! lo \<in> set (sort a)" "sort a ! hi \<in> set (sort a)"
    by (simp_all only: nth_mem)
  then have s0: "0 \<le> sort a ! lo" "0 \<le> sort a ! hi" using nn by simp_all
  have "sort a ! lo + g * (sort a ! hi - sort a ! lo) = (1 - g) * sort a ! lo + g * sort a ! hi"
    by (simp add: algebra_simps)
  also have "0 \<le> \<dots>" using g0 g1 s0 by simp
  finally show ?thesis
    by (simp add: quantile_linear_def Let_def n_def h_def lo_def hi_def g_def)
qed

lemma np_quantile_ok:
  assumes "a \<noteq> []" and "0 \<le> q" and "q \<le> 1"
  shows "np_quantile a q = Inr (quantile_linear a q)"
  using assms by (simp add: np_quantile_def)

lemma weighted_margin_member:
  assumes "a \<noteq> []"
  shows "\<exists>m. weighted_exponential_margin a alpha = Inr m \<and> m \<in> set a"
proof -
  let ?k = "min (searchsorted (cumsum (map (position_weight (length a)) (argsort a)))
                   ((1 - alpha) * last (cumsum (map (position_weight (length a)) (argsort a)))))
                (length a - 1)"
  have "0 < length a" using assms by simp
  moreover have "?k \<le> length a - 1" by (rule min.cobounded2)
  ultimately have "?k < length a" by linarith
  then have "?k < length (sort a)" by (simp only: length_sort)
  then have "sort a ! ?k \<in> set (sort a)" by (rule nth_mem)
  then show ?thesis by (simp add: weighted_exponential_margin_unfold[OF assms])
qed

lemma rng_choice_sample:
  assumes "draws_in_range G" and "a \<noteq> []"
  shows "fst (rng_choice G rng a) \<noteq> [] \<and> set (fst (rng_choice G rng a)) \<subseteq> set a"
proof -
  obtain idx rng' where d: "integers G rng (length a) (length a) = (idx, rng')"
    by (cases "integers G rng (length a) (length a)")
  have pos: "0 < length a" using assms(2) by simp
  have "length idx = length a \<and> list_all (\<lambda>i. i < length a) idx"
    using assms(1) pos d unfolding draws_in_range_def by (metis fst_conv)
  then have "idx \<noteq> []" "\<And>i. i \<in> set idx \<Longrightarrow> a ! i \<in> set a"
    using pos by (auto simp: list_all_iff)
  then show ?thesis by (auto simp: rng_choice_def d)
qed

lemma bootstrap_loop_ok:
  assumes "draws_in_range G" and "a \<noteq> []" and "0 \<le> q" and "q \<le> 1"
    and nn: "\<And>x. x \<in> set a \<Longrightarrow> 0 \<le> x"
  shows "\<exists>vs. bootstrap_loop G B rng a q = Inr vs \<and> length vs = B \<and> (\<forall>v\<in>set vs. 0 \<le> v)"
proof (induction B arbitrary: rng)
  case 0
  then show ?case by simp
next
  case (Suc B)
  obtain sample rng' where c: "rng_choice G rng a = (sample, rng')"
    by (cases "rng_choice G rng a")
  have s: "sample \<noteq> []" "set sample \<subseteq> set a"
    using rng_choice_sample[OF assms(1,2), of rng] by (simp_all add: c)
  have q: "np_quantile sample q = Inr (quantile_linear sample q)"
    by (rule np_quantile_ok[OF s(1) assms(3,4)])
  have v: "0 \<le> quantile_linear sample q"
    by (rule quantile_linear_nonneg[OF s(1) assms(3,4)]) (use s(2) nn in auto)
  obtain vs where vs: "bootstrap_loop G B rng' a q = Inr vs" "length vs = B" "\<forall>v\<in>set vs. 0 \<le> v"
    using Suc.IH[of rng'] by blast
  show ?case using v vs by (simp add: c q bind_stop_def)
qed

lemma np_mean_nonneg:
  assumes "vs \<noteq> []" and "\<forall>v\<in>set vs. 0 \<le> v"
  shows "\<exists>m. np_mean vs = Fin m \<and> 0 \<le> m"
  using assms by (simp add: np_mean_def sum_list_nonneg)

lemma np_median_nonneg:
  assumes "vs \<noteq> []" and "\<forall>v\<in>set vs. 0 \<le> v"
  shows "\<exists>m. np_median vs = Fin m \<and> 0 \<le> m"
proof -
  have n: "0 < length vs" using assms(1) by simp
  have el: "\<And>k. k < length vs \<Longrightarrow> 0 \<le> sort vs ! k"
    using assms(2) by (metis length_sort nth_mem set_sort)
  have a: "length vs div 2 < length vs" using n by simp
  have b: "length vs div 2 - 1 < length vs" using n by linarith
  show ?thesis
  proof (cases "odd (length vs)")
    case True
    then show ?thesis using n el[OF a] by (simp add: np_median_def Let_def)
  next
    case False
    then have "np_median vs = Fin ((sort vs ! (length vs div 2 - 1) + sort vs ! (length vs div 2)) / 2)"
      using n by (simp add: np_median_def Let_def)
    moreover have "0 \<le> (sort vs ! (length vs div 2 - 1) + sort vs ! (length vs div 2)) / 2"
      using el[OF a] el[OF b] by simp
    ultimately show ?thesis by blast
  qed
qed

lemma np_std_ddof1_nonneg:
  assumes "2 \<le> length a"
  shows "\<exists>s. np_std_ddof1 a = Fin s \<and> 0 \<le> s"
proof -
  have "0 \<le> sum_list (map (\<lambda>x. (x - sum_list a / real (length a))\<^sup>2) a)"
    by (rule sum_list_nonneg) auto
  then have "0 \<le> sum_list (map (\<lambda>x. (x - sum_list a / real (length a))\<^sup>2) a) / real (length a - 1)"
    by simp
  then show ?thesis using assms by (simp add: np_std_ddof1_def Let_def)
qed

lemma parametric_margin_nonneg:
  assumes "2 \<le> length y_cal" and "length p_cal = length y_cal" and "0 \<le> z_val"
  shows "finite_nonneg (parametric_margin z_val y_cal p_cal)"
proof -
  have "2 \<le> length (residuals y_cal p_cal)" using assms(1,2) by (simp add: length_residuals)
  then obtain s where "np_std_ddof1 (residuals y_cal p_cal) = Fin s" "0 \<le> s"
    using np_std_ddof1_nonneg by blast
  then show ?thesis using assms(3) by (simp add: parametric_margin_def)
qed

lemma parametric_margin_finite:
  assumes "2 \<le> length y_cal" and "length p_cal = length y_cal"
  shows "\<exists>m. parametric_margin z_val y_cal p_cal = Fin m"
proof -
  have "2 \<le> length (residuals y_cal p_cal)" using assms(1,2) by (simp add: length_residuals)
  then obtain s where "np_std_ddof1 (residuals y_cal p_cal) = Fin s"
    using np_std_ddof1_nonneg by blast
  then show ?thesis by (simp add: parametric_margin_def)
qed

lemma median3_nonneg:
  assumes "0 \<le> w" and "0 \<le> b"
  shows "np_median_fl [Fin p, Fin w, Fin b] = Fin (sort [p, w, b] ! 1) \<and> 0 \<le> sort [p, w, b] ! 1"
  using assms by (simp add: np_median_fl_def np_median_def)

lemma toy_draws_ok:
  "0 < n \<Longrightarrow> length (fst (toy_draws s n k)) = k \<and> list_all (\<lambda>i. i < n) (fst (toy_draws s n k))"
proof (induction k arbitrary: s)
  case 0
  then show ?case by simp
next
  case (Suc k)
  obtain idx s' where d: "toy_draws (5 * s + 3) n k = (idx, s')"
    by (cases "toy_draws (5 * s + 3) n k")
  have "length idx = k \<and> list_all (\<lambda>i. i < n) idx"
    using Suc.IH[OF Suc.prems, of "5 * s + 3"] by (simp add: d)
  then show ?case using Suc.prems by (simp add: d)
qed

lemma draws_in_range_toy_rng: "draws_in_range toy_rng"
  by (simp add: draws_in_range_def toy_rng_def toy_draws_ok)

lemma bootstrap_margins_ok:
  assumes "draws_in_range G" and "a \<noteq> []" and "0 < alpha" and "alpha < 1"
    and nn: "\<And>x. x \<in> set a \<Longrightarrow> 0 \<le> x" and "0 < B"
  shows "\<exists>m. bootstrap_margin_mean G seed a alpha B = Inr (Fin m) \<and> 0 \<le> m"
    and "\<exists>m. bootstrap_margin_median G seed a alpha B = Inr (Fin m) \<and> 0 \<le> m"
proof -
  obtain vs where vs: "bootstrap_loop G B (default_rng G seed) a (1 - alpha) = Inr vs"
      "length vs = B" "\<forall>v\<in>set vs. 0 \<le> v"
    using bootstrap_loop_ok[OF assms(1,2) _ _ nn, of "1 - alpha" B "default_rng G seed"] assms(3,4)
    by auto
  have ne: "vs \<noteq> []" using vs(2) assms(6) by auto
  show "\<exists>m. bootstrap_margin_mean G seed a alpha B = Inr (Fin m) \<and> 0 \<le> m"
    using np_mean_nonneg[OF ne vs(3)] by (simp add: bootstrap_margin_mean_def vs(1) bind_stop_def)
  show "\<exists>m. bootstrap_margin_median G seed a alpha B = Inr (Fin m) \<and> 0 \<le> m"
    using np_median_nonneg[OF ne vs(3)] by (simp add: bootstrap_margin_median_def vs(1) bind_stop_def)
qed

lemma naive_quantile_margin_ok:
  assumes "a \<noteq> []" and "0 < alpha" and "alpha < 1" and nn: "\<And>x. x \<in> set a \<Longrightarrow> 0 \<le> x"
  shows "\<exists>m. naive_quantile_margin a alpha = Inr m \<and> 0 \<le> m"
proof -
  have "0 \<le> quantile_linear a (1 - alpha)"
    by (rule quantile_linear_nonneg[OF assms(1) _ _ nn]) (use assms(2,3) in simp_all)
  then show ?thesis
    using assms(1,2,3) by (simp add: naive_quantile_margin_def np_quantile_def)
qed

lemma weighted_margin_ok:
  assumes "a \<noteq> []" and nn: "\<And>x. x \<in> set a \<Longrightarrow> 0 \<le> x"
  shows "\<exists>m. weighted_exponential_margin a alpha = Inr m \<and> 0 \<le> m"
  using weighted_margin_member[OF assms(1), of alpha] nn by blast

lemma margin_dict_global_ok:
  assumes "draws_in_range G" and "a \<noteq> []" and "0 < alpha" and "alpha < 1"
    and nn: "\<And>x. x \<in> set a \<Longrightarrow> 0 \<le> x"
  shows "\<exists>mn mw mb. naive_quantile_margin a alpha = Inr mn
           \<and> weighted_exponential_margin a alpha = Inr mw
           \<and> bootstrap_margin_mean G seed a alpha 200 = Inr (Fin mb)
           \<and> 0 \<le> mn \<and> 0 \<le> mw \<and> 0 \<le> mb \<and> 0 \<le> sort [mn, mw, mb] ! 1
           \<and> margin_dict_global G seed a alpha =
               Inr [(''Naive'', Fin mn), (''Weighted'', Fin mw), (''Bootstrap'', Fin mb),
                    (''Jackknife+'', Fin mn), (''CV+'', Fin mn),
                    (''ComplexMethod'', Fin (sort [mn, mw, mb] ! 1))]"
proof -
  obtain mn where mn: "naive_quantile_margin a alpha = Inr mn" "0 \<le> mn"
    using naive_quantile_margin_ok[OF assms(2,3,4) nn] by blast
  obtain mw where mw: "weighted_exponential_margin a alpha = Inr mw" "0 \<le> mw"
    using weighted_margin_ok[OF assms(2) nn] by blast
  obtain mb where mb: "bootstrap_margin_mean G seed a alpha 200 = Inr (Fin mb)" "0 \<le> mb"
    using bootstrap_margins_ok(1)[where B = 200 and seed = seed, OF assms(1,2,3,4) nn] by auto
  note med = median3_nonneg[OF mw(2) mb(2), of mn]
  have "margin_dict_global G seed a alpha =
               Inr [(''Naive'', Fin mn), (''Weighted'', Fin mw), (''Bootstrap'', Fin mb),
                    (''Jackknife+'', Fin mn), (''CV+'', Fin mn),
                    (''ComplexMethod'', Fin (sort [mn, mw, mb] ! 1))]"
    by (simp only: margin_dict_global_def mn(1) mw(1) mb(1) bind_stop_def sum.case
        jackknife_plus_margin_global_def cv_plus_margin_global_def med)
  then show ?thesis using mn mw mb med by blast
qed

lemma margin_dict_unit_ok:
  assumes "draws_in_range G" and "2 \<le> length y_cal" and "length p_cal = length y_cal"
    and "0 < alpha" and "alpha < 1"
  shows "\<exists>d c. margin_dict_unit G seed z_val y_cal p_cal alpha = Inr d
           \<and> map_of d ''ComplexMethod'' = Some c \<and> finite_nonneg c"
proof -
  let ?a = "abs_residuals y_cal p_cal"
  have ne: "?a \<noteq> []" using assms(2,3) length_abs_residuals[of p_cal y_cal] by auto
  obtain p where p: "parametric_margin z_val y_cal p_cal = Fin p"
    using parametric_margin_finite[OF assms(2,3)] by blast
  have nn: "\<And>x. x \<in> set ?a \<Longrightarrow> 0 \<le> x" by (rule abs_residuals_nonneg)
  obtain mw where mw: "weighted_exponential_margin ?a alpha = Inr mw" "0 \<le> mw"
    using weighted_margin_ok[OF ne nn] by blast
  obtain mb where mb: "bootstrap_margin_median G seed ?a alpha 200 = Inr (Fin mb)" "0 \<le> mb"
    using bootstrap_margins_ok(2)[where B = 200 and seed = seed, OF assms(1) ne assms(4,5) nn] by auto
  note med = median3_nonneg[OF mw(2) mb(2), of p]
  have "margin_dict_unit G seed z_val y_cal p_cal alpha =
          Inr [(''ParamNormal'', Fin p), (''Weighted'', Fin mw), (''Bootstrap'', Fin mb),
               (''Jackknife+'', Fin p), (''CV+'', Fin p),
               (''ComplexMethod'', Fin (sort [p, mw, mb] ! 1))]"
    by (simp only: margin_dict_unit_def Let_def p mw(1) mb(1) bind_stop_def sum.case
        jackknife_plus_margin_def cv_plus_margin_def med)
  then show ?thesis using med by simp
qed

text \<open>
  Scenario A of the specification: the residuals \<open>[1, 2, 3, 4, 5]\<close> with \<open>alpha = 0.2\<close>
  have the naive margin 4.2.
\<close>

lemma naive_quantile_scenario_A: "naive_quantile_margin [1, 2, 3, 4, 5] (1 / 5) = Inr (21 / 5)"
proof -
  have "\<lfloor>16 / 5 :: real\<rfloor> = 3" by linarith
  then show ?thesis
    by (simp add: naive_quantile_margin_def np_quantile_def quantile_linear_def Let_def)
qed

text \<open>
  As stated, claim C2 promises a finite, non-negative parametric margin for every
  non-empty residual set. On a single residual (true value 7, prediction 4, and
  \<open>z = 1.645\<close> for \<open>alpha = 0.05\<close>) \<^verbatim>\<open>np.std(res, ddof=1)\<close> divides by \<open>n - 1 = 0\<close> and
  the margin is \<^verbatim>\<open>nan\<close>.
\<close>

theorem parametric_margin_single_residual_nan:
  "\<not> finite_nonneg (parametric_margin (329 / 200) [7] [4])"
  by (simp add: parametric_margin_def residuals_def clip0_def np_std_ddof1_def)

text \<open>
  Claim C2, amended. For every non-empty calibration set and every \<open>alpha\<close> strictly
  between 0 and 1, with a generator that draws indices in range: the naive quantile, the
  weighted margin, the bootstrap margin (mean and median of 200 resamples), the
  placeholders of the global interval and every entry of its margin dictionary are
  finite and non-negative, and none of them raises, also for one or two residuals. The
  parametric margin \<open>z * sigma\<close> and the placeholders that return it are finite and
  non-negative when there are at least two residuals and \<open>z\<close> is non-negative (that is,
  \<open>alpha \<le> 1/2\<close>); the median of the single-unit candidates is finite and non-negative
  when there are at least two residuals.
\<close>

theorem margin_estimators_finite_nonnegative:
  assumes "y_cal \<noteq> []" and "length p_cal = length y_cal" and "0 < alpha" and "alpha < 1"
    and "draws_in_range G"
  shows "(\<exists>m. naive_quantile_margin (abs_residuals y_cal p_cal) alpha = Inr m \<and> 0 \<le> m)
       \<and> (\<exists>m. weighted_exponential_margin (abs_residuals y_cal p_cal) alpha = Inr m \<and> 0 \<le> m)
       \<and> (\<exists>m. bootstrap_margin_mean G seed (abs_residuals y_cal p_cal) alpha 200 = Inr m
                \<and> finite_nonneg m)
       \<and> (\<exists>m. bootstrap_margin_median G seed (abs_residuals y_cal p_cal) alpha 200 = Inr m
                \<and> finite_nonneg m)
       \<and> (\<exists>m. jackknife_plus_margin_global (abs_residuals y_cal p_cal) alpha = Inr m \<and> 0 \<le> m)
       \<and> (\<exists>m. cv_plus_margin_global (abs_residuals y_cal p_cal) alpha = Inr m \<and> 0 \<le> m)
       \<and> (\<exists>d. margin_dict_global G seed (abs_residuals y_cal p_cal) alpha = Inr d
                \<and> list_all (\<lambda>(name, m). finite_nonneg m) d)
       \<and> (2 \<le> length y_cal \<and> 0 \<le> z_val \<longrightarrow>
            finite_nonneg (parametric_margin z_val y_cal p_cal)
            \<and> finite_nonneg (jackknife_plus_margin z_val y_cal p_cal)
            \<and> finite_nonneg (cv_plus_margin z_val y_cal p_cal))
       \<and> (2 \<le> length y_cal \<longrightarrow>
            (\<exists>d c. margin_dict_unit G seed z_val y_cal p_cal alpha = Inr d
                   \<and> map_of d ''ComplexMethod'' = Some c \<and> finite_nonneg c))"
proof -
  let ?a = "abs_residuals y_cal p_cal"
  have ne: "?a \<noteq> []" using assms(1,2) length_abs_residuals[of p_cal y_cal] by auto
  have nn: "\<And>x. x \<in> set ?a \<Longrightarrow> 0 \<le> x" by (rule abs_residuals_nonneg)
  have naive: "\<exists>m. naive_quantile_margin ?a alpha = Inr m \<and> 0 \<le> m"
    by (rule naive_quantile_margin_ok[OF ne assms(3,4) nn])
  have weighted: "\<exists>m. weighted_exponential_margin ?a alpha = Inr m \<and> 0 \<le> m"
    by (rule weighted_margin_ok[OF ne nn])
  have bmean: "\<exists>m. bootstrap_margin_mean G seed ?a alpha 200 = Inr m \<and> finite_nonneg m"
    using bootstrap_margins_ok(1)[where B = 200 and seed = seed, OF assms(5) ne assms(3,4) nn] by auto
  have bmedian: "\<exists>m. bootstrap_margin_median G seed ?a alpha 200 = Inr m \<and> finite_nonneg m"
    using bootstrap_margins_ok(2)[where B = 200 and seed = seed, OF assms(5) ne assms(3,4) nn] by auto
  have jack: "\<exists>m. jackknife_plus_margin_global ?a alpha = Inr m \<and> 0 \<le> m"
    using naive by (simp add: jackknife_plus_margin_global_def)
  have cv: "\<exists>m. cv_plus_margin_global ?a alpha = Inr m \<and> 0 \<le> m"
    using naive by (simp add: cv_plus_margin_global_def)
  have dict: "\<exists>d. margin_dict_global G seed ?a alpha = Inr d
                \<and> list_all (\<lambda>(name, m). finite_nonneg m) d"
    using margin_dict_global_ok[where seed = seed, OF assms(5) ne assms(3,4) nn] by auto
  have param: "2 \<le> length y_cal \<and> 0 \<le> z_val \<longrightarrow>
            finite_nonneg (parametric_margin z_val y_cal p_cal)
            \<and> finite_nonneg (jackknife_plus_margin z_val y_cal p_cal)
            \<and> finite_nonneg (cv_plus_margin z_val y_cal p_cal)"
    using parametric_margin_nonneg[OF _ assms(2), of z_val]
    by (simp add: jackknife_plus_margin_def cv_plus_margin_def)
  have unit: "2 \<le> length y_cal \<longrightarrow>
            (\<exists>d c. margin_dict_unit G seed z_val y_cal p_cal alpha = Inr d
                   \<and> map_of d ''ComplexMethod'' = Some c \<and> finite_nonneg c)"
    using margin_dict_unit_ok[OF assms(5) _ assms(2,3,4)] by blast
  show ?thesis
    using naive weighted bmean bmedian jack cv dict param unit by blast
qed

text \<open>
  The theorem on two calibration rows (true values 3 and 1, predictions 1 and 2) with
  \<open>alpha = 0.05\<close>, the seed 42 and \<open>z = 1.645\<close>.
\<close>

theorem margin_estimators_two_residuals:
  "(\<exists>m. naive_quantile_margin (abs_residuals [3, 1] [1, 2]) (1 / 20) = Inr m \<and> 0 \<le> m)
   \<and> (\<exists>m. bootstrap_margin_mean toy_rng 42 (abs_residuals [3, 1] [1, 2]) (1 / 20) 200 = Inr m
            \<and> finite_nonneg m)
   \<and> finite_nonneg (parametric_margin (329 / 200) [3, 1] [1, 2])"
proof -
  have h: "[3, 1 :: real] \<noteq> []" "length [1, 2 :: real] = length [3, 1 :: real]"
    "(0 :: real) < 1 / 20" "(1 :: real) / 20 < 1"
    by simp_all
  note t = margin_estimators_finite_nonnegative[where seed = 42 and z_val = "329 / 200",
      OF h draws_in_range_toy_rng]
  have "2 \<le> length [3, 1 :: real] \<and> (0 :: real) \<le> 329 / 200" by simp
  then have "finite_nonneg (parametric_margin (329 / 200) [3, 1] [1, 2])" using t by blast
  then show ?thesis using t by blast
qed

section \<open>Rows, windows and the metrics\<close>

lemma length_rows_of:
  "length (rows_of grp units a) = length (filter (\<lambda>g. g \<in> set units) (take (length a) grp))"
proof (induction grp arbitrary: a)
  case Nil
  then show ?case by (simp add: rows_of_def)
next
  case (Cons g grp)
  show ?case
  proof (cases a)
    case Nil
    then show ?thesis by (simp add: rows_of_def)
  next
    case (Cons x xs)
    then show ?thesis using Cons.IH[of xs] by (simp add: rows_of_def)
  qed
qed

lemma split_rows_lengths:
  assumes "length (X_dl st) = length (y_dl st)" and "length (X_ml st) = length (y_ml st)"
  shows "length (fst (split_rows k units st)) = length (snd (split_rows k units st))"
  using assms by (simp add: split_rows_def length_rows_of)

lemma length_sliding_windows: "length (sliding_windows L xs) = length xs - L"
  by (simp add: sliding_windows_def)

lemma length_lower_bound_fl: "length (lower_bound_fl preds m) = length preds"
  by (cases m) (simp_all add: lower_bound_fl_def lower_bound_def length_clip0)

lemma coverage_of_finite:
  assumes "preds \<noteq> []" and "y_true \<noteq> []"
  shows "\<exists>c. coverage_of preds y_true m = Fin c"
proof -
  have "zip y_true (zip (lower_bound_fl preds m) (map Fin (upper_bound preds))) \<noteq> []"
    using assms length_lower_bound_fl[of preds m]
    by (cases y_true; cases "lower_bound_fl preds m"; cases preds) (simp_all add: upper_bound_def)
  then show ?thesis by (simp add: coverage_of_def np_mean_def)
qed

lemma fin_values_map_Fin: "fin_values (map Fin xs) = Some xs"
  by (induction xs) simp_all

lemma map2_fl_sub_Fin:
  "length ls = length us \<Longrightarrow> map2 fl_sub (map Fin us) (map Fin ls) = map Fin (map2 (-) us ls)"
  by (induction us ls rule: list_induct2') simp_all

lemma avg_width_of_finite:
  assumes "preds \<noteq> []"
  shows "\<exists>w. avg_width_of preds (Fin margin) = Fin w"
proof -
  define ws where "ws = map2 (-) preds (lower_bound preds margin)"
  have len: "length (lower_bound preds margin) = length preds"
    by (simp add: lower_bound_def length_clip0)
  have eq: "map2 fl_sub (map Fin (upper_bound preds)) (lower_bound_fl preds (Fin margin)) = map Fin ws"
    unfolding ws_def using map2_fl_sub_Fin[of "lower_bound preds margin" preds] len
    by (simp add: upper_bound_def lower_bound_fl_def)
  have ne: "ws \<noteq> []"
    unfolding ws_def using assms len by (cases preds; cases "lower_bound preds margin") simp_all
  have "avg_width_of preds (Fin margin) = np_mean ws"
    unfolding avg_width_of_def eq np_mean_fl_def by (simp add: fin_values_map_Fin)
  then show ?thesis using ne by (simp add: np_mean_def)
qed

text \<open>
  The inline metrics themselves would return \<^verbatim>\<open>nan\<close> on an empty sequence of true values.
\<close>

lemma coverage_of_empty: "coverage_of preds [] m = NaN"
  by (simp add: coverage_of_def np_mean_def)

section \<open>The table of the global interval\<close>

lemma bootstrap_loop_length:
  "bootstrap_loop G B rng a q = Inr vs \<Longrightarrow> length vs = B"
proof (induction B arbitrary: rng vs)
  case 0
  then show ?case by simp
next
  case (Suc B)
  obtain sample rng' where c: "rng_choice G rng a = (sample, rng')"
    by (cases "rng_choice G rng a")
  from Suc.prems obtain v vs' where
    "bootstrap_loop G B rng' a q = Inr vs'" "vs = v # vs'"
    by (auto simp: c bind_stop_def split: sum.splits)
  then show ?case using Suc.IH[of rng' vs'] by simp
qed

lemma bootstrap_margin_mean_fin:
  assumes "bootstrap_margin_mean G seed a alpha B = Inr m" and "0 < B"
  shows "is_fin m"
proof -
  from assms(1) obtain vs where vs: "bootstrap_loop G B (default_rng G seed) a (1 - alpha) = Inr vs"
    "m = np_mean vs"
    by (auto simp: bootstrap_margin_mean_def bind_stop_def split: sum.splits)
  have "vs \<noteq> []" using bootstrap_loop_length[OF vs(1)] assms(2) by auto
  then show ?thesis by (simp add: vs(2) np_mean_def)
qed

lemma np_median_fl_three: "is_fin (np_median_fl [Fin a, Fin b, Fin c])"
  by (simp add: np_median_fl_def np_median_def)

lemma margin_dict_global_shape:
  assumes "margin_dict_global G seed a alpha = Inr d"
  shows "\<exists>mn mw mb. d = [(''Naive'', Fin mn), (''Weighted'', Fin mw), (''Bootstrap'', Fin mb),
                          (''Jackknife+'', Fin mn), (''CV+'', Fin mn),
                          (''ComplexMethod'', np_median_fl [Fin mn, Fin mw, Fin mb])]"
proof -
  from assms obtain mn mw mb where
    n: "naive_quantile_margin a alpha = Inr mn" and
    w: "weighted_exponential_margin a alpha = Inr mw" and
    b: "bootstrap_margin_mean G seed a alpha 200 = Inr mb" and
    d: "d = [(''Naive'', Fin mn), (''Weighted'', Fin mw), (''Bootstrap'', mb),
             (''Jackknife+'', Fin mn), (''CV+'', Fin mn),
             (''ComplexMethod'', np_median_fl [Fin mn, Fin mw, mb])]"
    by (auto simp: margin_dict_global_def bind_stop_def jackknife_plus_margin_global_def
        cv_plus_margin_global_def split: sum.splits)
  have "is_fin mb" by (rule bootstrap_margin_mean_fin[OF b]) simp
  then obtain mb' where "mb = Fin mb'" by (cases mb) simp_all
  then show ?thesis using d by blast
qed

lemma conformal_table_eq:
  assumes "identify_best_model (results_metrics st) = Inr best" and "load_best_model best = Inr k"
  shows "conformal_table G alpha st =
     (if fst (split_units (np_unique (groups st))) = [] \<or> snd (split_units (np_unique (groups st))) = []
      then Inl NotEnoughUnits
      else if fst (split_rows k (fst (split_units (np_unique (groups st)))) st) = []
              \<or> fst (split_rows k (snd (split_units (np_unique (groups st)))) st) = []
      then Inl NoData
      else bind_stop
             (margin_dict_global G (random_state st)
                (abs_residuals (snd (split_rows k (fst (split_units (np_unique (groups st)))) st))
                   (map (saved_model st best) (fst (split_rows k (fst (split_units (np_unique (groups st)))) st))))
                alpha)
             (\<lambda>margin_dict.
                Inr (map (\<lambda>(name, margin).
                       (name, interval_metrics
                                (postprocess_global (map (saved_model st best)
                                   (fst (split_rows k (snd (split_units (np_unique (groups st)))) st))))
                                (snd (split_rows k (snd (split_units (np_unique (groups st)))) st)) margin))
                     margin_dict)))"
  by (simp add: conformal_table_def assms bind_stop_def Let_def)

lemma conformal_table_Inr_best:
  assumes "conformal_table G alpha st = Inr conf_df"
  shows "\<exists>best k. identify_best_model (results_metrics st) = Inr best \<and> load_best_model best = Inr k"
  using assms by (auto simp: conformal_table_def bind_stop_def split: sum.splits)

lemma conformal_table_ok:
  assumes "identify_best_model (results_metrics st) = Inr best" and "load_best_model best = Inr k"
    and "fst (split_units (np_unique (groups st))) \<noteq> []"
    and "snd (split_units (np_unique (groups st))) \<noteq> []"
    and "fst (split_rows k (fst (split_units (np_unique (groups st)))) st) \<noteq> []"
    and "fst (split_rows k (snd (split_units (np_unique (groups st)))) st) \<noteq> []"
    and "length (X_dl st) = length (y_dl st)" and "length (X_ml st) = length (y_ml st)"
    and "0 < alpha" and "alpha < 1" and "draws_in_range G"
  shows "\<exists>conf_df. conformal_table G alpha st = Inr conf_df"
proof -
  let ?train = "fst (split_units (np_unique (groups st)))"
  let ?X = "fst (split_rows k ?train st)"
  let ?y = "snd (split_rows k ?train st)"
  let ?p = "map (saved_model st best) ?X"
  have len: "length ?p = length ?y" using split_rows_lengths[OF assms(7,8), of k ?train] by simp
  have "length (abs_residuals ?y ?p) = length ?y" by (rule length_abs_residuals[OF len])
  then have ne: "abs_residuals ?y ?p \<noteq> []" using assms(5) len by auto
  have nn: "\<And>x. x \<in> set (abs_residuals ?y ?p) \<Longrightarrow> 0 \<le> x" by (rule abs_residuals_nonneg)
  obtain d where "margin_dict_global G (random_state st) (abs_residuals ?y ?p) alpha = Inr d"
    using margin_dict_global_ok[where seed = "random_state st", OF assms(11) ne assms(9,10) nn] by blast
  then show ?thesis
    using assms(3,4,5,6) by (simp add: conformal_table_eq[OF assms(1,2)] bind_stop_def)
qed

lemma demo_units:
  "fst (split_units (np_unique (groups (demo_pipeline\<lparr>results_metrics := rm\<rparr>)))) = [1]"
  "snd (split_units (np_unique (groups (demo_pipeline\<lparr>results_metrics := rm\<rparr>)))) = [2]"
  by (simp_all add: demo_pipeline_def np_unique_def split_units_def)

lemma demo_rows:
  "split_rows k [1] (demo_pipeline\<lparr>results_metrics := rm\<rparr>) = ([[1, 2], [2, 3]], [4, 3])"
  "split_rows k [2] (demo_pipeline\<lparr>results_metrics := rm\<rparr>) = ([[1, 2], [2, 3]], [4, 3])"
  by (simp_all add: split_rows_def rows_of_def demo_pipeline_def)

lemma demo_conformal_table:
  assumes "identify_best_model rm = Inr best" and "load_best_model best = Inr k"
  shows "\<exists>conf_df. conformal_table toy_rng (1 / 20) (demo_pipeline\<lparr>results_metrics := rm\<rparr>) = Inr conf_df"
proof (rule conformal_table_ok[where best = best and k = k])
  let ?st = "demo_pipeline\<lparr>results_metrics := rm\<rparr>"
  show "identify_best_model (results_metrics ?st) = Inr best" using assms(1) by simp
  show "load_best_model best = Inr k" by (rule assms(2))
  show "fst (split_units (np_unique (groups ?st))) \<noteq> []" unfolding demo_units by simp
  show "snd (split_units (np_unique (groups ?st))) \<noteq> []" unfolding demo_units by simp
  show "fst (split_rows k (fst (split_units (np_unique (groups ?st)))) ?st) \<noteq> []"
    unfolding demo_units demo_rows by simp
  show "fst (split_rows k (snd (split_units (np_unique (groups ?st)))) ?st) \<noteq> []"
    unfolding demo_units demo_rows by simp
  show "length (X_dl ?st) = length (y_dl ?st)" by (simp add: demo_pipeline_def)
  show "length (X_ml ?st) = length (y_ml ?st)" by (simp add: demo_pipeline_def)
  show "(0 :: real) < 1 / 20" "(1 :: real) / 20 < 1" by simp_all
  show "draws_in_range toy_rng" by (rule draws_in_range_toy_rng)
qed

section \<open>Empty sequences at evaluation time\<close>

lemma evaluate_unit_empty_targets:
  assumes "drop (sequence_length st) (map snd (df_unit st unit)) = []"
  shows "evaluate_unit st name m unit = Inl UnitTooShort \<or> evaluate_unit st name m unit = Inl UnitNoWindows"
proof -
  have "length (df_unit st unit) \<le> sequence_length st" using assms by simp
  then have "sliding_windows (sequence_length st) (map fst (df_unit st unit)) = []"
    using length_sliding_windows[of "sequence_length st" "map fst (df_unit st unit)"] by simp
  then show ?thesis by (simp add: evaluate_unit_def Let_def)
qed

lemma evaluate_unit_Inr:
  assumes "evaluate_unit st name m unit = Inr row"
  shows "drop (sequence_length st) (map snd (df_unit st unit)) \<noteq> []
         \<and> is_fin (row_coverage (snd (snd row)))
         \<and> (is_fin m \<longrightarrow> is_fin (row_avg_width (snd (snd row))))"
proof -
  let ?X = "sliding_windows (sequence_length st) (map fst (df_unit st unit))"
  let ?y = "drop (sequence_length st) (map snd (df_unit st unit))"
  let ?preds = "postprocess_unit (map (saved_model st name) ?X)"
  from assms have X: "?X \<noteq> []" and row: "row = (unit, length ?preds, interval_metrics ?preds ?y m)"
    by (auto simp: evaluate_unit_def Let_def split: if_splits)
  have "0 < length ?X" using X by simp
  then have long: "sequence_length st < length (df_unit st unit)"
    by (simp add: length_sliding_windows)
  then have y: "?y \<noteq> []" by simp
  have "length ?preds = length ?X" by (simp add: postprocess_unit_length)
  then have p: "?preds \<noteq> []" using X by auto
  obtain c where c: "coverage_of ?preds ?y m = Fin c" using coverage_of_finite[OF p y] by blast
  have w: "is_fin m \<longrightarrow> is_fin (avg_width_of ?preds m)"
  proof
    assume "is_fin m"
    then obtain v where "m = Fin v" by (cases m) simp_all
    then show "is_fin (avg_width_of ?preds m)" using avg_width_of_finite[OF p, of v] by auto
  qed
  show ?thesis using y c w by (simp add: row interval_metrics_def)
qed

lemma conformal_table_empty_targets:
  assumes "length (X_dl st) = length (y_dl st)" and "length (X_ml st) = length (y_ml st)"
    and "identify_best_model (results_metrics st) = Inr best" and "load_best_model best = Inr k"
    and "snd (split_rows k (snd (split_units (np_unique (groups st)))) st) = []"
  shows "conformal_table G alpha st = Inl NotEnoughUnits \<or> conformal_table G alpha st = Inl NoData"
proof -
  have "fst (split_rows k (snd (split_units (np_unique (groups st)))) st) = []"
    using split_rows_lengths[OF assms(1,2), of k "snd (split_units (np_unique (groups st)))"] assms(5)
    by simp
  then show ?thesis by (simp add: conformal_table_eq[OF assms(3,4)])
qed

lemma conformal_table_rows_finite:
  assumes "length (X_dl st) = length (y_dl st)" and "length (X_ml st) = length (y_ml st)"
    and "conformal_table G alpha st = Inr conf_df"
  shows "list_all (\<lambda>(name, row). is_fin (row_coverage row) \<and> is_fin (row_avg_width row)) conf_df"
proof -
  obtain best k where bk: "identify_best_model (results_metrics st) = Inr best" "load_best_model best = Inr k"
    using conformal_table_Inr_best[OF assms(3)] by blast
  let ?test = "snd (split_units (np_unique (groups st)))"
  let ?train = "fst (split_units (np_unique (groups st)))"
  let ?tpreds = "postprocess_global (map (saved_model st best) (fst (split_rows k ?test st)))"
  let ?y = "snd (split_rows k ?test st)"
  let ?a = "abs_residuals (snd (split_rows k ?train st)) (map (saved_model st best) (fst (split_rows k ?train st)))"
  from assms(3) obtain d where
    X: "fst (split_rows k ?test st) \<noteq> []" and
    d: "margin_dict_global G (random_state st) ?a alpha = Inr d" and
    df: "conf_df = map (\<lambda>(name, margin). (name, interval_metrics ?tpreds ?y margin)) d"
    unfolding conformal_table_eq[OF bk] by (auto simp: bind_stop_def split: if_splits sum.splits)
  have y: "?y \<noteq> []" using split_rows_lengths[OF assms(1,2), of k ?test] X by auto
  have "length ?tpreds = length (fst (split_rows k ?test st))"
    by (simp add: postprocess_global_eq_unit postprocess_unit_length)
  then have p: "?tpreds \<noteq> []" using X by auto
  have row: "is_fin (row_coverage (interval_metrics ?tpreds ?y (Fin v)))
             \<and> is_fin (row_avg_width (interval_metrics ?tpreds ?y (Fin v)))" for v
    using coverage_of_finite[OF p y, of "Fin v"] avg_width_of_finite[OF p, of v]
    by (auto simp: interval_metrics_def)
  obtain mn mw mb where shape: "d = [(''Naive'', Fin mn), (''Weighted'', Fin mw), (''Bootstrap'', Fin mb),
                          (''Jackknife+'', Fin mn), (''CV+'', Fin mn),
                          (''ComplexMethod'', np_median_fl [Fin mn, Fin mw, Fin mb])]"
    using margin_dict_global_shape[OF d] by blast
  obtain mc where mc: "np_median_fl [Fin mn, Fin mw, Fin mb] = Fin mc"
    using np_median_fl_three[of mn mw mb] by (cases "np_median_fl [Fin mn, Fin mw, Fin mb]") simp_all
  show ?thesis
    unfolding df shape mc using row by simp
qed

text \<open>
  Claim C5. When the sequence of true values that would reach the coverage and width
  computation is empty, the evaluation stops with an insufficient-data exit instead of
  returning \<^verbatim>\<open>nan\<close>: a test unit without a target beyond its first window is reported
  and skipped (too short, or no window), and the global interval returns \<^verbatim>\<open>None\<close> (not
  enough units, or no data) when the test rows are empty. Whenever a row of metrics is
  produced, its coverage is a number, and so is its average width for a finite margin.
  The arrays are aligned as the data preparation builds them: a target for every window.
\<close>

theorem empty_targets_stop_before_the_metrics:
  assumes "length (X_dl st) = length (y_dl st)" and "length (X_ml st) = length (y_ml st)"
  shows "(drop (sequence_length st) (map snd (df_unit st unit)) = [] \<longrightarrow>
            evaluate_unit st name m unit = Inl UnitTooShort
            \<or> evaluate_unit st name m unit = Inl UnitNoWindows)
       \<and> (\<forall>row. evaluate_unit st name m unit = Inr row \<longrightarrow>
            drop (sequence_length st) (map snd (df_unit st unit)) \<noteq> []
            \<and> is_fin (row_coverage (snd (snd row)))
            \<and> (is_fin m \<longrightarrow> is_fin (row_avg_width (snd (snd row)))))
       \<and> (identify_best_model (results_metrics st) = Inr best \<and> load_best_model best = Inr k
            \<and> snd (split_rows k (snd (split_units (np_unique (groups st)))) st) = [] \<longrightarrow>
            fst (plot_conformal_prediction_interval G alpha st) = Inl NotEnoughUnits
            \<or> fst (plot_conformal_prediction_interval G alpha st) = Inl NoData)
       \<and> (\<forall>conf_df. fst (plot_conformal_prediction_interval G alpha st) = Inr conf_df \<longrightarrow>
            list_all (\<lambda>(name, row). is_fin (row_coverage row) \<and> is_fin (row_avg_width row)) conf_df)"
proof -
  have a: "drop (sequence_length st) (map snd (df_unit st unit)) = [] \<longrightarrow>
            evaluate_unit st name m unit = Inl UnitTooShort
            \<or> evaluate_unit st name m unit = Inl UnitNoWindows"
    using evaluate_unit_empty_targets by blast
  have b: "\<forall>row. evaluate_unit st name m unit = Inr row \<longrightarrow>
            drop (sequence_length st) (map snd (df_unit st unit)) \<noteq> []
            \<and> is_fin (row_coverage (snd (snd row)))
            \<and> (is_fin m \<longrightarrow> is_fin (row_avg_width (snd (snd row))))"
    using evaluate_unit_Inr by blast
  have fst_plot: "fst (plot_conformal_prediction_interval G alpha st) = conformal_table G alpha st"
    by (simp add: plot_conformal_prediction_interval_def split: sum.splits)
  have c: "identify_best_model (results_metrics st) = Inr best \<and> load_best_model best = Inr k
            \<and> snd (split_rows k (snd (split_units (np_unique (groups st)))) st) = [] \<longrightarrow>
            fst (plot_conformal_prediction_interval G alpha st) = Inl NotEnoughUnits
            \<or> fst (plot_conformal_prediction_interval G alpha st) = Inl NoData"
    unfolding fst_plot using conformal_table_empty_targets[OF assms] by blast
  have d: "\<forall>conf_df. fst (plot_conformal_prediction_interval G alpha st) = Inr conf_df \<longrightarrow>
            list_all (\<lambda>(name, row). is_fin (row_coverage row) \<and> is_fin (row_avg_width row)) conf_df"
    unfolding fst_plot using conformal_table_rows_finite[OF assms] by blast
  show ?thesis using a b c d by blast
qed

text \<open>
  The theorem on the small pipeline: with windows of length 4 unit 1 has no window, and
  without any unit identifier the global interval has no test row.
\<close>

theorem empty_targets_demo:
  "(evaluate_unit (demo_pipeline\<lparr>sequence_length := 4\<rparr>) ''XGBoost'' (Fin 3) 1 = Inl UnitTooShort
      \<or> evaluate_unit (demo_pipeline\<lparr>sequence_length := 4\<rparr>) ''XGBoost'' (Fin 3) 1 = Inl UnitNoWindows)
   \<and> (fst (plot_conformal_prediction_interval toy_rng (1 / 20) (demo_pipeline\<lparr>groups := []\<rparr>))
         = Inl NotEnoughUnits
      \<or> fst (plot_conformal_prediction_interval toy_rng (1 / 20) (demo_pipeline\<lparr>groups := []\<rparr>))
         = Inl NoData)"
proof -
  let ?s1 = "demo_pipeline\<lparr>sequence_length := 4\<rparr>"
  let ?s2 = "demo_pipeline\<lparr>groups := []\<rparr>"
  have al1: "length (X_dl ?s1) = length (y_dl ?s1)" "length (X_ml ?s1) = length (y_ml ?s1)"
    by (simp_all add: demo_pipeline_def)
  have al2: "length (X_dl ?s2) = length (y_dl ?s2)" "length (X_ml ?s2) = length (y_ml ?s2)"
    by (simp_all add: demo_pipeline_def)
  have e1: "drop (sequence_length ?s1) (map snd (df_unit ?s1 1)) = []"
    by (simp add: demo_pipeline_def)
  have e2: "identify_best_model (results_metrics ?s2) = Inr ''XGBoost'' \<and> load_best_model ''XGBoost'' = Inr False
        \<and> snd (split_rows False (snd (split_units (np_unique (groups ?s2)))) ?s2) = []"
    by (simp add: demo_pipeline_def identify_best_model_def load_best_model_def split_rows_def
        split_units_def np_unique_def rows_of_def)
  note t1 = empty_targets_stop_before_the_metrics[OF al1, of 1 "''XGBoost''" "Fin 3"]
  note t2 = empty_targets_stop_before_the_metrics[OF al2, where best = "''XGBoost''" and k = False
      and G = toy_rng and alpha = "1 / 20"]
  have a: "evaluate_unit ?s1 ''XGBoost'' (Fin 3) 1 = Inl UnitTooShort
      \<or> evaluate_unit ?s1 ''XGBoost'' (Fin 3) 1 = Inl UnitNoWindows"
    using t1 e1 by blast
  have b: "fst (plot_conformal_prediction_interval toy_rng (1 / 20) ?s2) = Inl NotEnoughUnits
      \<or> fst (plot_conformal_prediction_interval toy_rng (1 / 20) ?s2) = Inl NoData"
    using t2 e2 by blast
  show ?thesis using a b by blast
qed

section \<open>The guard on the best model\<close>

lemma py_min_nan_first: "py_min (name, ScoreNaN) ms = (name, ScoreNaN)"
  by (induction ms) simp_all

lemma infinite_scores_stop:
  "identify_best_model [(''LSTM'', ScoreInf), (''XGBoost'', ScoreInf)] = Inl NoValidBestModel"
  by (simp add: identify_best_model_def)

text \<open>
  Claim C7 says that the selector stops when every S-score is infinite or
  \<^verbatim>\<open>nan\<close>. The guard tests \<^verbatim>\<open>np.isinf\<close> only: a dictionary whose first S-score is
  \<^verbatim>\<open>nan\<close> passes it with the first model, because no comparison with \<^verbatim>\<open>nan\<close> holds. With
  the dictionary that \<^verbatim>\<open>run_experiment\<close> leaves when no model could be trained, the
  global interval is calibrated with \<^verbatim>\<open>"LSTM"\<close> and returns a table.
\<close>

theorem nan_scores_calibration_proceeds:
  "identify_best_model ((name, ScoreNaN) # ms) = Inr name
   \<and> identify_best_model_per_unit ((name, ScoreNaN) # ms) = Inr name
   \<and> identify_best_model untrained_metrics = Inr ''LSTM''
   \<and> (\<exists>conf_df. fst (plot_conformal_prediction_interval toy_rng (1 / 20)
                       (demo_pipeline\<lparr>results_metrics := untrained_metrics\<rparr>)) = Inr conf_df)"
proof -
  have g: "identify_best_model ((name, ScoreNaN) # ms) = Inr name"
    "identify_best_model_per_unit ((name, ScoreNaN) # ms) = Inr name"
    by (simp_all add: identify_best_model_def identify_best_model_per_unit_def py_min_nan_first)
  have b: "identify_best_model untrained_metrics = Inr ''LSTM''"
    by (simp add: identify_best_model_def untrained_metrics_def)
  have l: "load_best_model ''LSTM'' = Inr True" by (simp add: load_best_model_def)
  obtain conf_df where "conformal_table toy_rng (1 / 20)
      (demo_pipeline\<lparr>results_metrics := untrained_metrics\<rparr>) = Inr conf_df"
    using demo_conformal_table[OF b l] by blast
  then have "fst (plot_conformal_prediction_interval toy_rng (1 / 20)
                       (demo_pipeline\<lparr>results_metrics := untrained_metrics\<rparr>)) = Inr conf_df"
    by (simp add: plot_conformal_prediction_interval_def)
  then show ?thesis using g b by blast
qed

section \<open>The single-unit method and the cache\<close>

lemma single_unit_table_eq:
  assumes "identify_best_model (results_metrics st) = Inr best" and "load_best_model best = Inr k"
  shows "single_unit_table G norm_ppf alpha st =
     (if fst (split_units (np_unique (groups st))) = [] then Inl NotEnoughUnits
      else if fst (split_rows k (fst (split_units (np_unique (groups st)))) st) = [] then Inl NoData
      else bind_stop
             (margin_dict_unit G (random_state st) (norm_ppf (1 - alpha))
                (snd (split_rows k (fst (split_units (np_unique (groups st)))) st))
                (map (saved_model st best) (fst (split_rows k (fst (split_units (np_unique (groups st)))) st)))
                alpha)
             (\<lambda>margin_dict.
                Inr (map (\<lambda>(name, margin).
                       (name, interval_metrics
                                (clip0 (map (saved_model st best)
                                   (fst (split_rows k (fst (split_units (np_unique (groups st)))) st))))
                                (snd (split_rows k (fst (split_units (np_unique (groups st)))) st)) margin))
                     margin_dict)))"
  by (simp add: single_unit_table_def assms bind_stop_def Let_def)

lemma single_unit_demo_succeeds:
  assumes "draws_in_range G"
  shows "fst (plot_conformal_single_unit G norm_ppf 2 (1 / 20) demo_pipeline) = Inr ()"
proof -
  have same: "demo_pipeline\<lparr>results_metrics := results_metrics demo_pipeline\<rparr> = demo_pipeline" by simp
  have b: "identify_best_model (results_metrics demo_pipeline) = Inr ''XGBoost''"
    by (simp add: demo_pipeline_def identify_best_model_def)
  have l: "load_best_model ''XGBoost'' = Inr False" by (simp add: load_best_model_def)
  note u = demo_units(1)[of "results_metrics demo_pipeline", unfolded same]
  note r = demo_rows(1)[of False "results_metrics demo_pipeline", unfolded same]
  have h: "2 \<le> length [4, 3 :: real]"
    "length (map (saved_model demo_pipeline ''XGBoost'') [[1, 2], [2, 3]]) = length [4, 3 :: real]"
    "(0 :: real) < 1 / 20" "(1 :: real) / 20 < 1"
    by simp_all
  obtain d where d: "margin_dict_unit G (random_state demo_pipeline) (norm_ppf (1 - 1 / 20)) [4, 3]
      (map (saved_model demo_pipeline ''XGBoost'') [[1, 2], [2, 3]]) (1 / 20) = Inr d"
    using margin_dict_unit_ok[OF assms h] by blast
  have "\<exists>t. single_unit_table G norm_ppf (1 / 20) demo_pipeline = Inr t"
    unfolding single_unit_table_eq[OF b l] u r fst_conv snd_conv d by (simp add: bind_stop_def)
  then show ?thesis by (auto simp: plot_conformal_single_unit_def)
qed

text \<open>
  Claim C3 says that a successful call of the single-unit method selects a method and
  stores it in \<^verbatim>\<open>self.conformal_inference\<close>. The method ends once the table of the
  candidates is built: it leaves the object as it was, and so does the per-unit method
  whose \<^verbatim>\<open>return\<close> precedes the selection code. On the small pipeline the call succeeds
  and the cache is still empty.
\<close>

theorem single_unit_stores_nothing:
  "snd (plot_conformal_single_unit G norm_ppf unit_id alpha st) = st
   \<and> snd (evaluate_conformal_metrics_per_unit G norm_ppf alpha margin_method st) = st
   \<and> fst (plot_conformal_single_unit toy_rng norm_ppf 2 (1 / 20) demo_pipeline) = Inr ()
   \<and> conformal_inference (snd (plot_conformal_single_unit toy_rng norm_ppf 2 (1 / 20) demo_pipeline))
       = None"
proof -
  have a: "snd (plot_conformal_single_unit G norm_ppf unit_id alpha st) = st"
    by (simp add: plot_conformal_single_unit_def split: sum.splits)
  have a': "snd (plot_conformal_single_unit toy_rng norm_ppf 2 (1 / 20) demo_pipeline) = demo_pipeline"
    by (simp add: plot_conformal_single_unit_def split: sum.splits)
  have b: "snd (evaluate_conformal_metrics_per_unit G norm_ppf alpha margin_method st) = st"
    by (simp add: evaluate_conformal_metrics_per_unit_def)
  have c: "fst (plot_conformal_single_unit toy_rng norm_ppf 2 (1 / 20) demo_pipeline) = Inr ()"
    by (rule single_unit_demo_succeeds[OF draws_in_range_toy_rng])
  have "conformal_inference demo_pipeline = None" by (simp add: demo_pipeline_def)
  then show ?thesis using a a' b c by simp
qed

section \<open>The cache and the multi-unit method\<close>






end
